theory Spec2Isabelle
  imports Complex_Main "HOL-Library.Log_Nat"
begin

section \<open>Exceptions and statement sequencing\<close>

text \<open>
  The Python sources mutate objects in place and raise exceptions.  A statement is
  modelled as a function from the state to the state it leaves behind together with
  the exception it raised, if any: the mutations made before a raise persist, as they
  do in Python.  \<open>andthen\<close> runs the next statement only when nothing was raised.
\<close>

datatype exn = ValueError | KeyError

type_synonym 's outcome = "'s \<times> exn option"

definition andthen :: "'s outcome \<Rightarrow> ('s \<Rightarrow> 's outcome) \<Rightarrow> 's outcome" where
  "andthen r f = (case r of (s, None) \<Rightarrow> f s | (s, Some e) \<Rightarrow> (s, Some e))"

definition done_ok :: "'s \<Rightarrow> 's outcome" where
  "done_ok s = (s, None)"

text \<open>Python truthiness of an optional string: \<open>None\<close> and \<open>''\<close> are falsy.\<close>

definition truthy :: "string option \<Rightarrow> bool" where
  "truthy x = (case x of None \<Rightarrow> False | Some s \<Rightarrow> s \<noteq> [])"

section \<open>Dictionaries with insertion order\<close>

text \<open>
  A Python \<open>dict\<close> iterates in insertion order; assigning to a key that is present
  keeps its position, deleting a key removes its entry.
\<close>

type_synonym ('k, 'v) dict = "('k \<times> 'v) list"

definition dict_get :: "('k, 'v) dict \<Rightarrow> 'k \<Rightarrow> 'v option" where
  "dict_get d k = map_of d k"

fun dict_set :: "('k, 'v) dict \<Rightarrow> 'k \<Rightarrow> 'v \<Rightarrow> ('k, 'v) dict" where
  "dict_set [] k v = [(k, v)]"
| "dict_set ((k', v') # d) k v = (if k' = k then (k, v) # d else (k', v') # dict_set d k v)"

definition dict_del :: "('k, 'v) dict \<Rightarrow> 'k \<Rightarrow> ('k, 'v) dict" where
  "dict_del d k = filter (\<lambda>kv. fst kv \<noteq> k) d"

definition dict_keys :: "('k, 'v) dict \<Rightarrow> 'k list" where
  "dict_keys d = map fst d"

definition dict_has :: "('k, 'v) dict \<Rightarrow> 'k \<Rightarrow> bool" where
  "dict_has d k = (k \<in> set (dict_keys d))"

section \<open>models/message.py\<close>

text \<open>
  A message payload is a dictionary read only through \<open>data.get(key)\<close>.  It is
  modelled by one optional field per key that a handler of the modelled roles reads;
  \<open>None\<close> is an absent key.  Identifiers are strings and quantities integers, the
  types that the constructors of \<open>Order\<close> and \<open>Message\<close> declare.  The wall-clock
  \<open>timestamp\<close> of a message is never read and is left out.
\<close>

record payload =
  key_order_id :: "string option"
  key_product_id :: "string option"
  key_quantity :: "int option"
  key_requester :: "string option"
  key_pickup_location :: "string option"
  key_delivery_location :: "string option"
  key_recipient :: "string option"
  key_reason :: "string option"

definition empty_payload :: payload where
  "empty_payload = \<lparr> key_order_id = None, key_product_id = None, key_quantity = None,
     key_requester = None, key_pickup_location = None, key_delivery_location = None,
     key_recipient = None, key_reason = None \<rparr>"

record message =
  sender :: string
  recipient :: string
  message_type :: string
  data :: payload

text \<open>\<open>Message.__init__\<close>: empty sender, recipient or type raise \<open>ValueError\<close>.\<close>

definition Message :: "string \<Rightarrow> string \<Rightarrow> string \<Rightarrow> payload \<Rightarrow> exn + message" where
  "Message s r t d =
     (if s = [] then Inl ValueError
      else if r = [] then Inl ValueError
      else if t = [] then Inl ValueError
      else Inr \<lparr> sender = s, recipient = r, message_type = t, data = d \<rparr>)"

section \<open>models/order.py\<close>

record order =
  order_id :: string
  product_id :: string
  quantity :: int
  requester :: string
  status :: string
  delivery_location :: "string option"

text \<open>
  \<open>Order.__init__\<close>; the identifiers arrive from \<open>data.get\<close> and may be \<open>None\<close>.
  The attribute \<open>delivery_location\<close> is attached by the warehouse after construction.
\<close>

definition Order :: "string option \<Rightarrow> string option \<Rightarrow> int \<Rightarrow> string option \<Rightarrow> exn + order" where
  "Order oid pid q req =
     (if \<not> truthy oid then Inl ValueError
      else if \<not> truthy pid then Inl ValueError
      else if q \<le> 0 then Inl ValueError
      else if \<not> truthy req then Inl ValueError
      else Inr \<lparr> order_id = the oid, product_id = the pid, quantity = q,
                  requester = the req, status = ''pending'', delivery_location = None \<rparr>)"

definition valid_statuses :: "string list" where
  "valid_statuses = [''pending'', ''processing'', ''shipped'', ''delivered'', ''cancelled'']"

definition update_status :: "order \<Rightarrow> string \<Rightarrow> exn + order" where
  "update_status ord new_status =
     (if new_status \<notin> set valid_statuses then Inl ValueError
      else Inr (ord\<lparr>status := new_status\<rparr>))"

section \<open>agents/message\_bus.py\<close>

text \<open>
  \<open>_agent_queues\<close> is a \<open>defaultdict(list)\<close>: a recipient without an entry has the
  empty queue, so the queues are a total function.  \<open>_subscribers\<close> keeps one entry
  per \<open>subscribe\<close> call; the handlers themselves are never called through the bus.
\<close>

record message_bus =
  subscribers :: "string list"
  agent_queues :: "string \<Rightarrow> message list"

definition max_queue_size :: nat where
  "max_queue_size = 100"

definition new_bus :: message_bus where
  "new_bus = \<lparr> subscribers = [], agent_queues = (\<lambda>_. []) \<rparr>"

definition subscribe :: "string \<Rightarrow> message_bus \<Rightarrow> message_bus" where
  "subscribe aid b = b\<lparr>subscribers := subscribers b @ [aid]\<rparr>"

definition unsubscribe :: "string \<Rightarrow> message_bus \<Rightarrow> message_bus" where
  "unsubscribe aid b =
     b\<lparr>subscribers := filter (\<lambda>x. x \<noteq> aid) (subscribers b),
       agent_queues := (agent_queues b)(aid := [])\<rparr>"

text \<open>
  \<open>publish\<close>: \<open>pop(0)\<close> runs only on a queue of at least \<open>max_queue_size = 100\<close>
  envelopes, which is never empty, so it cannot raise.
\<close>

definition publish :: "message \<Rightarrow> message_bus \<Rightarrow> message_bus" where
  "publish m b =
     (let r = recipient m;
          q = agent_queues b r;
          q' = (if length q \<ge> max_queue_size then tl q else q)
      in b\<lparr>agent_queues := (agent_queues b)(r := q' @ [m])\<rparr>)"

definition deliver_messages :: "string \<Rightarrow> message_bus \<Rightarrow> message list \<times> message_bus" where
  "deliver_messages aid b =
     (agent_queues b aid, b\<lparr>agent_queues := (agent_queues b)(aid := [])\<rparr>)"

definition get_queue_size :: "string \<Rightarrow> message_bus \<Rightarrow> nat" where
  "get_queue_size aid b = length (agent_queues b aid)"

definition clear_all_queues :: "message_bus \<Rightarrow> message_bus" where
  "clear_all_queues b = b\<lparr>agent_queues := (\<lambda>_. [])\<rparr>"

text \<open>A sequence of publishes with no drain in between.\<close>

fun publish_all :: "message list \<Rightarrow> message_bus \<Rightarrow> message_bus" where
  "publish_all [] b = b"
| "publish_all (m # ms) b = publish_all ms (publish m b)"

section \<open>Floating-point numbers\<close>

text \<open>
  Python's \<open>float\<close> is the IEEE 754 binary64 format.  A finite double is the rational
  number it denotes; comparisons and \<open>min\<close> of doubles are exact, and an arithmetic
  operation returns the double nearest to the exact result, ties to the even significand
  (\<open>round_double\<close>: 53 significant bits, least exponent \<open>-1074\<close>).  Infinities and
  \<open>NaN\<close> only arise beyond \<open>2 ^ 1024\<close> and are outside the model.  An \<open>int\<close> operand
  is converted to the double of the same value.
\<close>

definition round_half_even :: "rat \<Rightarrow> int" where
  "round_half_even r =
     (let f = \<lfloor>r\<rfloor>; d = r - of_int f
      in if d < 1 / 2 then f else if 1 / 2 < d then f + 1 else if even f then f else f + 1)"

definition floor_log2 :: "rat \<Rightarrow> int" where
  "floor_log2 a =
     (let k = bitlen (fst (quotient_of a)) - bitlen (snd (quotient_of a))
      in if power_int 2 k \<le> a then k else k - 1)"

definition round_double :: "rat \<Rightarrow> rat" where
  "round_double x =
     (if x = 0 then 0
      else let e = max (floor_log2 \<bar>x\<bar> - 52) (- 1074)
           in sgn x * of_int (round_half_even (\<bar>x\<bar> / power_int 2 e)) * power_int 2 e)"

definition float_add :: "rat \<Rightarrow> rat \<Rightarrow> rat" where
  "float_add x y = round_double (x + y)"

definition float_sub :: "rat \<Rightarrow> rat \<Rightarrow> rat" where
  "float_sub x y = round_double (x - y)"

definition float_div :: "rat \<Rightarrow> rat \<Rightarrow> rat" where
  "float_div x y = round_double (x / y)"

section \<open>simulation/city\_map.py\<close>

text \<open>
  The location directory.  \<open>Location.distance_to\<close> is a floating-point Euclidean
  distance; the model takes the table of distances between known locations as given: its
  entries are the doubles that \<open>distance_to\<close> returns.  The distance cache only stores
  values that \<open>distance_to\<close> returns and is left out.  A location identifier that may be \<open>None\<close>
  at a call site is a \<open>string option\<close>; \<open>None\<close> is never a key of the directory.
\<close>

record city_map =
  locations :: "string list"
  distance_to :: "string \<Rightarrow> string \<Rightarrow> rat"

definition get_location :: "city_map \<Rightarrow> string option \<Rightarrow> string option" where
  "get_location cm lid =
     (case lid of None \<Rightarrow> None
      | Some l \<Rightarrow> if l \<in> set (locations cm) then Some l else None)"

definition calculate_distance :: "city_map \<Rightarrow> string option \<Rightarrow> string option \<Rightarrow> exn + rat" where
  "calculate_distance cm id1 id2 =
     (if get_location cm id1 = None then Inl KeyError
      else if get_location cm id2 = None then Inl KeyError
      else if id1 = id2 then Inr 0
      else Inr (distance_to cm (the id1) (the id2)))"

section \<open>agents/base\_agent.py\<close>

text \<open>
  The fields of \<open>BaseAgent\<close> that decide behaviour.  \<open>location\<close> holds the identifier
  of the agent's \<open>Location\<close> object.  The diagnostic \<open>state\<close> dictionary, logging and
  the wall-clock \<open>last_step_time\<close> are written but never read by the agents or the
  scheduler, and are left out.  The roles extend this record, as the classes extend
  \<open>BaseAgent\<close>.  A statement of an agent runs on the pair of the agent and the bus.
\<close>

record base_agent =
  agent_id :: string
  location :: string
  active :: bool

definition or_empty :: "string option \<Rightarrow> string" where
  "or_empty x = (case x of None \<Rightarrow> [] | Some s \<Rightarrow> s)"

text \<open>
  \<open>send_message\<close> builds the \<open>Message\<close> (which may raise) and publishes it.  A
  recipient of \<open>None\<close> is passed as \<open>or_empty None = ''\<close>: both are falsy and raise
  the same \<open>ValueError\<close> in \<open>Message.__init__\<close>.
\<close>

definition send_message ::
  "string \<Rightarrow> string \<Rightarrow> payload \<Rightarrow> ('a base_agent_scheme \<times> message_bus)
     \<Rightarrow> ('a base_agent_scheme \<times> message_bus) outcome" where
  "send_message rcp mtype d s =
     (case Message (agent_id (fst s)) rcp mtype d of
        Inl e \<Rightarrow> (s, Some e)
      | Inr m \<Rightarrow> ((fst s, publish m (snd s)), None))"

text \<open>
  \<open>process_messages\<close> drains the agent's mailbox and feeds each envelope to the
  handler; an exception of the handler is logged and the next envelope is handled, on
  the state the failed handler left.
\<close>

fun handle_each ::
  "(message \<Rightarrow> 's \<Rightarrow> 's outcome) \<Rightarrow> message list \<Rightarrow> 's \<Rightarrow> 's" where
  "handle_each h [] s = s"
| "handle_each h (m # ms) s = handle_each h ms (fst (h m s))"

definition process_messages ::
  "(message \<Rightarrow> ('a base_agent_scheme \<times> message_bus) \<Rightarrow> ('a base_agent_scheme \<times> message_bus) outcome)
     \<Rightarrow> ('a base_agent_scheme \<times> message_bus) \<Rightarrow> ('a base_agent_scheme \<times> message_bus)" where
  "process_messages h s =
     (let (messages, b) = deliver_messages (agent_id (fst s)) (snd s)
      in handle_each h messages (fst s, b))"

definition deactivate ::
  "('a base_agent_scheme \<times> message_bus) \<Rightarrow> ('a base_agent_scheme \<times> message_bus)" where
  "deactivate s = ((fst s)\<lparr>active := False\<rparr>, unsubscribe (agent_id (fst s)) (snd s))"

definition is_active :: "'a base_agent_scheme \<Rightarrow> bool" where
  "is_active a = active a"

section \<open>agents/truck\_agent.py\<close>

text \<open>
  \<open>current_order\<close> is a dictionary with the four keys below, or \<open>None\<close>.  The field
  \<open>status\<close> of the truck is named \<open>truck_status\<close> here, since \<open>status\<close> is the
  order's field.  Speeds and distances are doubles (section on floating-point numbers).
\<close>

record assignment =
  cur_order_id :: string
  cur_product_id :: string
  cur_quantity :: int
  cur_recipient :: string

record truck = base_agent +
  speed :: rat
  capacity :: int
  current_location_id :: "string option"
  destination_location_id :: "string option"
  truck_status :: string
  cargo :: "(string, int) dict"
  current_cargo_weight :: int
  current_order :: "assignment option"
  pickup_location_id :: "string option"
  delivery_location_id :: "string option"
  dispatcher_id :: "string option"
  movement_progress :: rat
  total_distance :: rat
  remaining_distance :: rat
  deliveries_completed :: int
  total_distance_traveled :: rat
  total_cargo_delivered :: int

type_synonym truck_state = "truck \<times> message_bus"

definition reset_to_available :: "truck_state \<Rightarrow> truck_state outcome" where
  "reset_to_available s =
     (let t = (fst s)\<lparr> truck_status := ''available'', current_order := None,
                pickup_location_id := None, delivery_location_id := None,
                destination_location_id := None, dispatcher_id := None,
                movement_progress := 0, total_distance := 0, remaining_distance := 0 \<rparr>
      in if truthy (dispatcher_id t)
         then send_message (or_empty (dispatcher_id t)) ''TRUCK_AVAILABLE'' empty_payload (t, snd s)
         else done_ok (t, snd s))"

definition start_movement_to_pickup :: "city_map \<Rightarrow> truck_state \<Rightarrow> truck_state outcome" where
  "start_movement_to_pickup cm s =
     (let t = (fst s)\<lparr> destination_location_id := pickup_location_id (fst s),
                truck_status := ''moving_to_pickup'', movement_progress := 0 \<rparr>
      in case calculate_distance cm (current_location_id t) (destination_location_id t) of
           Inr d \<Rightarrow> done_ok (t\<lparr>total_distance := d, remaining_distance := d\<rparr>, snd s)
         | Inl KeyError \<Rightarrow> reset_to_available (t, snd s)
         | Inl e \<Rightarrow> ((t, snd s), Some e))"

definition start_movement_to_delivery :: "city_map \<Rightarrow> truck_state \<Rightarrow> truck_state outcome" where
  "start_movement_to_delivery cm s =
     (let t = (fst s)\<lparr> destination_location_id := delivery_location_id (fst s),
                truck_status := ''moving_to_delivery'', movement_progress := 0 \<rparr>
      in case calculate_distance cm (current_location_id t) (destination_location_id t) of
           Inr d \<Rightarrow> done_ok (t\<lparr>total_distance := d, remaining_distance := d\<rparr>, snd s)
         | Inl KeyError \<Rightarrow> reset_to_available (t, snd s)
         | Inl e \<Rightarrow> ((t, snd s), Some e))"

definition move_towards_destination :: "truck \<Rightarrow> truck" where
  "move_towards_destination t =
     (if total_distance t \<le> 0 then t
      else let distance_this_step = min (speed t) (remaining_distance t);
               rem = float_sub (remaining_distance t) distance_this_step
           in t\<lparr> remaining_distance := rem,
                 movement_progress := float_sub 1 (float_div rem (total_distance t)),
                 total_distance_traveled := float_add (total_distance_traveled t) distance_this_step \<rparr>)"

text \<open>The literal \<open>0.01\<close> is the double nearest to one hundredth.\<close>

definition has_reached_destination :: "truck \<Rightarrow> bool" where
  "has_reached_destination t = (remaining_distance t \<le> round_double (1 / 100))"

definition arrive_at_pickup :: "city_map \<Rightarrow> truck \<Rightarrow> truck" where
  "arrive_at_pickup cm t0 =
     (let t = t0\<lparr> current_location_id := pickup_location_id t0, truck_status := ''loading'',
                 movement_progress := 1, remaining_distance := 0 \<rparr>
      in case get_location cm (pickup_location_id t) of
           Some l \<Rightarrow> t\<lparr>location := l\<rparr>
         | None \<Rightarrow> t)"

definition arrive_at_delivery :: "city_map \<Rightarrow> truck \<Rightarrow> truck" where
  "arrive_at_delivery cm t0 =
     (let t = t0\<lparr> current_location_id := delivery_location_id t0, truck_status := ''unloading'',
                 movement_progress := 1, remaining_distance := 0 \<rparr>
      in case get_location cm (delivery_location_id t) of
           Some l \<Rightarrow> t\<lparr>location := l\<rparr>
         | None \<Rightarrow> t)"

definition cargo_get :: "(string, int) dict \<Rightarrow> string \<Rightarrow> int" where
  "cargo_get c p = (case dict_get c p of None \<Rightarrow> 0 | Some q \<Rightarrow> q)"

definition complete_loading :: "city_map \<Rightarrow> truck_state \<Rightarrow> truck_state outcome" where
  "complete_loading cm s =
     (case current_order (fst s) of
        None \<Rightarrow> reset_to_available s
      | Some co \<Rightarrow>
          let t = (fst s)\<lparr> cargo := dict_set (cargo (fst s)) (cur_product_id co)
                                 (cargo_get (cargo (fst s)) (cur_product_id co) + cur_quantity co),
                    current_cargo_weight := current_cargo_weight (fst s) + cur_quantity co \<rparr>;
              pickup_data = empty_payload\<lparr> key_order_id := Some (cur_order_id co),
                    key_product_id := Some (cur_product_id co),
                    key_quantity := Some (cur_quantity co) \<rparr>
          in andthen (send_message (or_empty (dispatcher_id t)) ''PICKUP_COMPLETE'' pickup_data (t, snd s))
               (\<lambda>s1. if current_location_id (fst s1) = delivery_location_id (fst s1)
                     then done_ok (arrive_at_delivery cm (fst s1), snd s1)
                     else start_movement_to_delivery cm s1))"

definition complete_unloading :: "truck_state \<Rightarrow> truck_state outcome" where
  "complete_unloading s =
     (case current_order (fst s) of
        None \<Rightarrow> reset_to_available s
      | Some co \<Rightarrow>
          let t0 = fst s;
              product = cur_product_id co;
              q = cur_quantity co;
              t = (if dict_has (cargo t0) product \<and> cargo_get (cargo t0) product \<ge> q
                   then t0\<lparr> cargo := (if cargo_get (cargo t0) product - q = 0
                                        then dict_del (cargo t0) product
                                        else dict_set (cargo t0) product (cargo_get (cargo t0) product - q)),
                            current_cargo_weight := current_cargo_weight t0 - q,
                            total_cargo_delivered := total_cargo_delivered t0 + q,
                            deliveries_completed := deliveries_completed t0 + 1 \<rparr>
                   else t0);
              delivery_data = empty_payload\<lparr> key_order_id := Some (cur_order_id co),
                    key_product_id := Some product, key_quantity := Some q,
                    key_delivery_location := delivery_location_id t \<rparr>;
              recipient_data = empty_payload\<lparr> key_order_id := Some (cur_order_id co),
                    key_product_id := Some product, key_quantity := Some q \<rparr>
          in andthen (send_message (or_empty (dispatcher_id t)) ''DELIVERY_COMPLETE'' delivery_data (t, snd s))
               (\<lambda>s1. andthen (send_message (cur_recipient co) ''DELIVERY_NOTIFICATION'' recipient_data s1)
                  reset_to_available))"

definition handle_dispatch_order :: "city_map \<Rightarrow> message \<Rightarrow> truck_state \<Rightarrow> truck_state outcome" where
  "handle_dispatch_order cm m s =
     (let t = fst s; d = data m;
          q = (case key_quantity d of None \<Rightarrow> 0 | Some n \<Rightarrow> n)
      in if truck_status t \<noteq> ''available'' then done_ok s
         else if \<not> (truthy (key_order_id d) \<and> truthy (key_product_id d) \<and>
                    truthy (key_pickup_location d) \<and> truthy (key_delivery_location d) \<and>
                    truthy (key_recipient d)) then done_ok s
         else if q > capacity t then done_ok s
         else let t1 = t\<lparr> current_order := Some \<lparr> cur_order_id = the (key_order_id d),
                                cur_product_id = the (key_product_id d), cur_quantity = q,
                                cur_recipient = the (key_recipient d) \<rparr>,
                           pickup_location_id := key_pickup_location d,
                           delivery_location_id := key_delivery_location d,
                           dispatcher_id := Some (sender m) \<rparr>
              in if current_location_id t1 = key_pickup_location d
                 then done_ok (arrive_at_pickup cm t1, snd s)
                 else start_movement_to_pickup cm (t1, snd s))"

text \<open>\<open>TruckAgent.handle_message\<close> catches and logs every exception of its handlers.\<close>

definition truck_handle_message :: "city_map \<Rightarrow> message \<Rightarrow> truck_state \<Rightarrow> truck_state outcome" where
  "truck_handle_message cm m s =
     (if message_type m = ''DISPATCH_ORDER'' then done_ok (fst (handle_dispatch_order cm m s))
      else done_ok s)"

definition truck_step :: "city_map \<Rightarrow> truck_state \<Rightarrow> truck_state outcome" where
  "truck_step cm s0 =
     (let s = process_messages (truck_handle_message cm) s0
      in if truck_status (fst s) = ''moving_to_pickup'' then
           (let t = move_towards_destination (fst s)
            in if has_reached_destination t then done_ok (arrive_at_pickup cm t, snd s)
               else done_ok (t, snd s))
         else if truck_status (fst s) = ''loading'' then complete_loading cm s
         else if truck_status (fst s) = ''moving_to_delivery'' then
           (let t = move_towards_destination (fst s)
            in if has_reached_destination t then done_ok (arrive_at_delivery cm t, snd s)
               else done_ok (t, snd s))
         else if truck_status (fst s) = ''unloading'' then complete_unloading s
         else done_ok s)"

text \<open>\<open>TruckAgent.__init__\<close>, without the subscription that \<open>BaseAgent.__init__\<close> makes.\<close>

definition new_truck :: "string \<Rightarrow> string \<Rightarrow> rat \<Rightarrow> int \<Rightarrow> truck" where
  "new_truck aid loc spd cap =
     \<lparr> agent_id = aid, location = loc, active = True,
       speed = spd, capacity = cap, current_location_id = Some loc,
       destination_location_id = None, truck_status = ''available'', cargo = [],
       current_cargo_weight = 0, current_order = None, pickup_location_id = None,
       delivery_location_id = None, dispatcher_id = None, movement_progress = 0,
       total_distance = 0, remaining_distance = 0, deliveries_completed = 0,
       total_distance_traveled = 0, total_cargo_delivered = 0 \<rparr>"

text \<open>Numbered envelopes from one sender to one recipient, for concrete runs.\<close>

definition numbered :: "string \<Rightarrow> string \<Rightarrow> nat \<Rightarrow> message" where
  "numbered s r i = \<lparr> sender = s, recipient = r, message_type = ''ORDER_REQUEST'',
     data = empty_payload\<lparr>key_quantity := Some (int i)\<rparr> \<rparr>"

section \<open>Decimal numerals in identifiers\<close>

text \<open>Python's \<open>str\<close> of an integer, as used in f-strings that build identifiers.\<close>

definition digit_char :: "nat \<Rightarrow> char" where
  "digit_char d = ''0123456789'' ! d"

function str_of_nat :: "nat \<Rightarrow> string" where
  "str_of_nat n =
     (if n < 10 then [digit_char n] else str_of_nat (n div 10) @ [digit_char (n mod 10)])"
  by pat_completeness auto
termination
  by (relation "measure id") auto

definition str_of_int :: "int \<Rightarrow> string" where
  "str_of_int i = (if i < 0 then CHR ''-'' # str_of_nat (nat (- i)) else str_of_nat (nat i))"

section \<open>agents/warehouse\_agent.py\<close>

text \<open>
  The keys of \<open>inventory\<close> are product identifiers as they come out of
  \<open>data.get('product_id')\<close>, so a key may be \<open>None\<close>.  The value of
  \<open>int(time.time() * 1000)\<close> read when a factory order is placed for a product is the
  parameter \<open>clock\<close>.  The performance tracker is an outside sink and is left out.
\<close>

record warehouse = base_agent +
  inventory :: "(string option, int) dict"
  reorder_threshold :: int
  reorder_quantity :: int
  max_trucks :: int
  pending_store_orders :: "(string, order) dict"
  pending_factory_orders :: "(string, order) dict"
  processing_orders :: "(string, order) dict"
  available_trucks :: "string list"
  assigned_trucks :: "(string, string) dict"
  orders_processed :: int
  orders_fulfilled :: int
  orders_rejected :: int

type_synonym warehouse_state = "warehouse \<times> message_bus"

definition inventory_get :: "(string option, int) dict \<Rightarrow> string option \<Rightarrow> int" where
  "inventory_get d p = (case dict_get d p of None \<Rightarrow> 0 | Some q \<Rightarrow> q)"

definition truck_name :: "string \<Rightarrow> int \<Rightarrow> string" where
  "truck_name aid i = ''truck_'' @ aid @ ''_'' @ str_of_int i"

text \<open>\<open>WarehouseAgent.__init__\<close>, without the subscription of \<open>BaseAgent.__init__\<close>.\<close>

definition new_warehouse ::
  "string \<Rightarrow> string \<Rightarrow> (string option, int) dict \<Rightarrow> int \<Rightarrow> int \<Rightarrow> int \<Rightarrow> warehouse" where
  "new_warehouse aid loc initial_inventory threshold requantity mtrucks =
     \<lparr> agent_id = aid, location = loc, active = True,
       inventory = initial_inventory, reorder_threshold = threshold,
       reorder_quantity = requantity, max_trucks = mtrucks,
       pending_store_orders = [], pending_factory_orders = [], processing_orders = [],
       available_trucks = map (truck_name aid) [1..mtrucks], assigned_trucks = [],
       orders_processed = 0, orders_fulfilled = 0, orders_rejected = 0 \<rparr>"

definition handle_store_order :: "message \<Rightarrow> warehouse_state \<Rightarrow> warehouse_state outcome" where
  "handle_store_order m s =
     (let d = data m;
          q = (case key_quantity d of None \<Rightarrow> 0 | Some n \<Rightarrow> n)
      in case Order (key_order_id d) (key_product_id d) q (key_requester d) of
           Inl e \<Rightarrow> (s, Some e)
         | Inr ord \<Rightarrow>
             done_ok ((fst s)\<lparr> pending_store_orders :=
                          dict_set (pending_store_orders (fst s)) (order_id ord)
                            (ord\<lparr>delivery_location := key_delivery_location d\<rparr>),
                        orders_processed := orders_processed (fst s) + 1 \<rparr>, snd s))"

definition can_fulfill_order :: "warehouse \<Rightarrow> order \<Rightarrow> bool" where
  "can_fulfill_order w ord = (inventory_get (inventory w) (Some (product_id ord)) \<ge> quantity ord)"

text \<open>
  \<open>_dispatch_truck_for_order\<close> returns a boolean; the outcome carries it next to the
  state.  When \<open>send_message\<close> raises, the truck has already left the available list.
\<close>

definition dispatch_truck_for_order ::
  "order \<Rightarrow> warehouse_state \<Rightarrow> (warehouse_state \<times> bool) outcome" where
  "dispatch_truck_for_order ord s =
     (case available_trucks (fst s) of
        [] \<Rightarrow> ((s, False), None)
      | truck_id # rest \<Rightarrow>
          let w = (fst s)\<lparr> available_trucks := rest,
                    assigned_trucks := dict_set (assigned_trucks (fst s)) truck_id (order_id ord) \<rparr>;
              dispatch_data = empty_payload\<lparr> key_order_id := Some (order_id ord),
                    key_product_id := Some (product_id ord),
                    key_quantity := Some (quantity ord),
                    key_pickup_location := Some (location w),
                    key_delivery_location := delivery_location ord,
                    key_recipient := Some (requester ord) \<rparr>
          in case send_message truck_id ''DISPATCH_ORDER'' dispatch_data (w, snd s) of
               (s1, None) \<Rightarrow> ((s1, True), None)
             | (s1, Some e) \<Rightarrow> ((s1, False), Some e))"

definition reject_order :: "order \<Rightarrow> warehouse_state \<Rightarrow> warehouse_state outcome" where
  "reject_order ord s =
     send_message (requester ord) ''ORDER_REJECTED''
       (empty_payload\<lparr> key_order_id := Some (order_id ord),
          key_reason := Some (''Insufficient inventory. Available: ''
             @ str_of_int (inventory_get (inventory (fst s)) (Some (product_id ord)))
             @ '', Requested: '' @ str_of_int (quantity ord)) \<rparr>) s"

text \<open>
  The body of the loop of \<open>_process_pending_orders\<close>, on the state and the list
  \<open>orders_to_remove\<close>.  The \<open>Order\<close> object moved to \<open>processing_orders\<close> is the one
  still held by \<open>pending_store_orders\<close> until the loop is over, so its new status shows
  in both tables.
\<close>

definition process_order ::
  "string \<Rightarrow> order \<Rightarrow> (warehouse_state \<times> string list) \<Rightarrow> (warehouse_state \<times> string list) outcome" where
  "process_order oid ord acc =
     (let s = fst acc; orders_to_remove = snd acc
      in if can_fulfill_order (fst s) ord then
           (case dispatch_truck_for_order ord s of
              ((s1, _), Some e) \<Rightarrow> ((s1, orders_to_remove), Some e)
            | ((s1, False), None) \<Rightarrow> done_ok (s1, orders_to_remove)
            | ((s1, True), None) \<Rightarrow>
                (case update_status ord ''processing'' of
                   Inl e \<Rightarrow> ((((fst s1)\<lparr> processing_orders :=
                                 dict_set (processing_orders (fst s1)) oid ord \<rparr>, snd s1),
                              orders_to_remove), Some e)
                 | Inr ord' \<Rightarrow>
                     let w = fst s1
                     in done_ok ((w\<lparr> processing_orders := dict_set (processing_orders w) oid ord',
                                     pending_store_orders := dict_set (pending_store_orders w) oid ord',
                                     orders_fulfilled := orders_fulfilled w + 1,
                                     inventory := dict_set (inventory w) (Some (product_id ord))
                                        (inventory_get (inventory w) (Some (product_id ord)) - quantity ord) \<rparr>,
                                  snd s1), orders_to_remove @ [oid])))
         else
           (case reject_order ord s of
              (s1, Some e) \<Rightarrow> ((s1, orders_to_remove), Some e)
            | (s1, None) \<Rightarrow>
                done_ok (((fst s1)\<lparr>orders_rejected := orders_rejected (fst s1) + 1\<rparr>, snd s1),
                         orders_to_remove @ [oid])))"

fun process_orders_loop ::
  "(string \<times> order) list \<Rightarrow> (warehouse_state \<times> string list)
     \<Rightarrow> (warehouse_state \<times> string list) outcome" where
  "process_orders_loop [] acc = done_ok acc"
| "process_orders_loop ((oid, ord) # rest) acc =
     andthen (process_order oid ord acc) (process_orders_loop rest)"

fun remove_orders :: "string list \<Rightarrow> (string, order) dict \<Rightarrow> (string, order) dict" where
  "remove_orders [] d = d"
| "remove_orders (oid # rest) d = remove_orders rest (dict_del d oid)"

definition process_pending_orders :: "warehouse_state \<Rightarrow> warehouse_state outcome" where
  "process_pending_orders s =
     (case process_orders_loop (pending_store_orders (fst s)) (s, []) of
        ((s1, _), Some e) \<Rightarrow> (s1, Some e)
      | ((s1, orders_to_remove), None) \<Rightarrow>
          done_ok ((fst s1)\<lparr> pending_store_orders :=
                       remove_orders orders_to_remove (pending_store_orders (fst s1)) \<rparr>, snd s1))"

definition handle_delivery_complete :: "message \<Rightarrow> warehouse_state \<Rightarrow> warehouse_state outcome" where
  "handle_delivery_complete m s =
     (let truck_id = sender m;
          w0 = fst s;
          w = (if dict_has (assigned_trucks w0) truck_id
               then w0\<lparr> assigned_trucks := dict_del (assigned_trucks w0) truck_id,
                        available_trucks := available_trucks w0 @ [truck_id] \<rparr>
               else w0)
      in case key_order_id (data m) of
           None \<Rightarrow> done_ok (w, snd s)
         | Some oid \<Rightarrow>
             (case dict_get (processing_orders w) oid of
                None \<Rightarrow> done_ok (w, snd s)
              | Some ord \<Rightarrow>
                  (case update_status ord ''delivered'' of
                     Inl e \<Rightarrow> ((w, snd s), Some e)
                   | Inr ord' \<Rightarrow>
                       andthen (send_message (requester ord') ''DELIVERY_NOTIFICATION''
                                  (empty_payload\<lparr> key_order_id := Some oid,
                                      key_product_id := Some (product_id ord'),
                                      key_quantity := Some (quantity ord') \<rparr>)
                                  (w\<lparr>processing_orders := dict_set (processing_orders w) oid ord'\<rparr>, snd s))
                         (\<lambda>s1. done_ok ((fst s1)\<lparr> processing_orders :=
                                    dict_del (processing_orders (fst s1)) oid \<rparr>, snd s1)))))"

definition place_factory_order ::
  "nat \<Rightarrow> string option \<Rightarrow> int \<Rightarrow> warehouse_state \<Rightarrow> warehouse_state outcome" where
  "place_factory_order now pid q s =
     (let oid = agent_id (fst s) @ ''_factory_order_'' @ str_of_nat now
      in case Order (Some oid) pid q (Some (agent_id (fst s))) of
           Inl e \<Rightarrow> (s, Some e)
         | Inr ord \<Rightarrow>
             send_message ''factory_1'' ''FACTORY_ORDER''
               (empty_payload\<lparr> key_order_id := Some oid, key_product_id := pid,
                   key_quantity := Some q, key_requester := Some (agent_id (fst s)) \<rparr>)
               ((fst s)\<lparr> pending_factory_orders :=
                    dict_set (pending_factory_orders (fst s)) oid ord \<rparr>, snd s))"

fun reorder_loop ::
  "(string option \<Rightarrow> nat) \<Rightarrow> (string option \<times> int) list \<Rightarrow> warehouse_state \<Rightarrow> warehouse_state outcome" where
  "reorder_loop clock [] s = done_ok s"
| "reorder_loop clock ((pid, q) # rest) s =
     (if q \<le> reorder_threshold (fst s) \<and>
         \<not> (\<exists>ord \<in> set (map snd (pending_factory_orders (fst s))).
               Some (product_id ord) = pid \<and> status ord = ''pending'')
      then andthen (place_factory_order (clock pid) pid (reorder_quantity (fst s)) s)
             (reorder_loop clock rest)
      else reorder_loop clock rest s)"

definition check_and_reorder_from_factory ::
  "(string option \<Rightarrow> nat) \<Rightarrow> warehouse_state \<Rightarrow> warehouse_state outcome" where
  "check_and_reorder_from_factory clock s = reorder_loop clock (inventory (fst s)) s"

definition handle_production_complete :: "message \<Rightarrow> warehouse_state \<Rightarrow> warehouse_state outcome" where
  "handle_production_complete m s =
     (let d = data m; w = fst s;
          q = (case key_quantity d of None \<Rightarrow> 0 | Some n \<Rightarrow> n)
      in case key_order_id d of
           None \<Rightarrow> done_ok s
         | Some oid \<Rightarrow>
             (case dict_get (pending_factory_orders w) oid of
                None \<Rightarrow> done_ok s
              | Some ord \<Rightarrow>
                  (let w1 = w\<lparr> inventory := dict_set (inventory w) (key_product_id d)
                                   (inventory_get (inventory w) (key_product_id d) + q) \<rparr>
                   in case update_status ord ''delivered'' of
                        Inl e \<Rightarrow> ((w1, snd s), Some e)
                      | Inr ord' \<Rightarrow>
                          done_ok (w1\<lparr> pending_factory_orders :=
                                       dict_del (pending_factory_orders w1) oid \<rparr>, snd s))))"

definition handle_truck_available :: "message \<Rightarrow> warehouse_state \<Rightarrow> warehouse_state outcome" where
  "handle_truck_available m s =
     (let truck_id = sender m;
          w0 = fst s;
          w = (if dict_has (assigned_trucks w0) truck_id
               then w0\<lparr>assigned_trucks := dict_del (assigned_trucks w0) truck_id\<rparr>
               else w0)
      in if truck_id \<notin> set (available_trucks w)
         then done_ok (w\<lparr>available_trucks := available_trucks w @ [truck_id]\<rparr>, snd s)
         else done_ok (w, snd s))"

text \<open>\<open>WarehouseAgent.handle_message\<close> catches and logs every exception of its handlers.\<close>

definition warehouse_handle_message :: "message \<Rightarrow> warehouse_state \<Rightarrow> warehouse_state outcome" where
  "warehouse_handle_message m s =
     (if message_type m = ''ORDER_REQUEST'' then done_ok (fst (handle_store_order m s))
      else if message_type m = ''DELIVERY_COMPLETE'' then done_ok (fst (handle_delivery_complete m s))
      else if message_type m = ''PRODUCTION_COMPLETE'' then done_ok (fst (handle_production_complete m s))
      else if message_type m = ''TRUCK_AVAILABLE'' then done_ok (fst (handle_truck_available m s))
      else done_ok s)"

definition warehouse_step ::
  "(string option \<Rightarrow> nat) \<Rightarrow> warehouse_state \<Rightarrow> warehouse_state outcome" where
  "warehouse_step clock s0 =
     andthen (check_and_reorder_from_factory clock (process_messages warehouse_handle_message s0))
       process_pending_orders"

section \<open>agents/factory\_agent.py\<close>

text \<open>An entry of \<open>active_production\<close>: the order, its start and its completion step.\<close>

record production_info =
  job_order :: order
  start_time :: int
  completion_time :: int

record factory = base_agent +
  production_capacity :: int
  production_time :: int
  finished_goods_inventory :: "(string, int) dict"
  production_queue :: "order list"
  active_production :: "(string, production_info) dict"
  current_time_step :: int
  orders_received :: int
  orders_completed :: int
  total_production_time :: int

type_synonym factory_state = "factory \<times> message_bus"


definition goods_get :: "(string, int) dict \<Rightarrow> string \<Rightarrow> int" where
  "goods_get d p = (case dict_get d p of None \<Rightarrow> 0 | Some q \<Rightarrow> q)"

text \<open>
  \<open>_notify_production_complete\<close> ends with \<open>order.update_status('delivered')\<close>.  Both
  callers drop the order object right after the call, so this last status is never
  read and only the message is modelled.
\<close>

definition notify_production_complete :: "order \<Rightarrow> factory_state \<Rightarrow> factory_state outcome" where
  "notify_production_complete ord s =
     send_message (requester ord) ''PRODUCTION_COMPLETE''
       (empty_payload\<lparr> key_order_id := Some (order_id ord),
          key_product_id := Some (product_id ord),
          key_quantity := Some (quantity ord) \<rparr>) s"

definition fulfill_from_inventory :: "order \<Rightarrow> factory_state \<Rightarrow> factory_state outcome" where
  "fulfill_from_inventory ord s =
     notify_production_complete ord
       ((fst s)\<lparr> finished_goods_inventory :=
            dict_set (finished_goods_inventory (fst s)) (product_id ord)
              (goods_get (finished_goods_inventory (fst s)) (product_id ord) - quantity ord) \<rparr>,
        snd s)"

definition handle_factory_order :: "message \<Rightarrow> factory_state \<Rightarrow> factory_state outcome" where
  "handle_factory_order m s =
     (let d = data m;
          q = (case key_quantity d of None \<Rightarrow> 0 | Some n \<Rightarrow> n)
      in if \<not> (truthy (key_order_id d) \<and> truthy (key_product_id d) \<and> q > 0 \<and>
                truthy (key_requester d)) then done_ok s
         else case Order (key_order_id d) (key_product_id d) q (key_requester d) of
                Inl e \<Rightarrow> (s, Some e)
              | Inr ord \<Rightarrow>
                  if goods_get (finished_goods_inventory (fst s)) (product_id ord) \<ge> q
                  then fulfill_from_inventory ord s
                  else done_ok ((fst s)\<lparr> production_queue := production_queue (fst s) @ [ord],
                                         orders_received := orders_received (fst s) + 1 \<rparr>, snd s))"

text \<open>The second loop of \<open>_check_production_completion\<close>, over \<open>completed_orders\<close>.\<close>

fun complete_loop :: "string list \<Rightarrow> factory_state \<Rightarrow> factory_state outcome" where
  "complete_loop [] s = done_ok s"
| "complete_loop (oid # rest) s =
     (case dict_get (active_production (fst s)) oid of
        None \<Rightarrow> (s, Some KeyError)
      | Some info \<Rightarrow>
          let ord = job_order info;
              f1 = (fst s)\<lparr> finished_goods_inventory :=
                        dict_set (finished_goods_inventory (fst s)) (product_id ord)
                          (goods_get (finished_goods_inventory (fst s)) (product_id ord) + quantity ord) \<rparr>
          in andthen (notify_production_complete ord (f1, snd s))
               (\<lambda>s1. complete_loop rest
                  ((fst s1)\<lparr> active_production := dict_del (active_production (fst s1)) oid,
                             orders_completed := orders_completed (fst s1) + 1,
                             total_production_time := total_production_time (fst s1)
                                + (completion_time info - start_time info) \<rparr>, snd s1)))"

definition completed_orders :: "factory \<Rightarrow> string list" where
  "completed_orders f =
     map fst (filter (\<lambda>(oid, info). current_time_step f \<ge> completion_time info)
                (active_production f))"

definition check_production_completion :: "factory_state \<Rightarrow> factory_state outcome" where
  "check_production_completion s = complete_loop (completed_orders (fst s)) s"

text \<open>
  The \<open>while\<close> loop of \<open>_start_new_production\<close>: it runs on the local
  \<open>available_capacity\<close>, the queue and the table of active jobs, and ends when the
  capacity is used up or the queue is empty.  The started order is the object stored in
  the table, so the table shows its status \<open>processing\<close>.
\<close>

fun start_loop ::
  "int \<Rightarrow> int \<Rightarrow> int \<Rightarrow> order list \<Rightarrow> (string, production_info) dict
     \<Rightarrow> order list \<times> (string, production_info) dict" where
  "start_loop now ptime available_capacity [] act = ([], act)"
| "start_loop now ptime available_capacity (ord # queue) act =
     (if available_capacity > 0
      then start_loop now ptime (available_capacity - 1) queue
             (dict_set act (order_id ord)
                \<lparr> job_order = ord\<lparr>status := ''processing''\<rparr>, start_time = now,
                  completion_time = now + ptime \<rparr>)
      else (ord # queue, act))"

definition start_new_production :: "factory \<Rightarrow> factory" where
  "start_new_production f =
     (let available_capacity = production_capacity f - int (length (active_production f));
          (queue, act) = start_loop (current_time_step f) (production_time f) available_capacity
                           (production_queue f) (active_production f)
      in f\<lparr>production_queue := queue, active_production := act\<rparr>)"

definition factory_handle_message :: "message \<Rightarrow> factory_state \<Rightarrow> factory_state outcome" where
  "factory_handle_message m s =
     (if message_type m = ''FACTORY_ORDER'' then done_ok (fst (handle_factory_order m s))
      else done_ok s)"

definition factory_step :: "factory_state \<Rightarrow> factory_state outcome" where
  "factory_step s0 =
     (let s = process_messages factory_handle_message
                ((fst s0)\<lparr>current_time_step := current_time_step (fst s0) + 1\<rparr>, snd s0)
      in andthen (check_production_completion s)
           (\<lambda>s1. done_ok (start_new_production (fst s1), snd s1)))"

section \<open>simulation/simulation\_manager.py\<close>

text \<open>
  The scheduler sees every agent through \<open>BaseAgent\<close>: the abstract methods
  \<open>handle_message\<close> and \<open>step\<close> are the parameters \<open>hm\<close> and \<open>stp\<close>.  An agent holds
  no reference to another agent, so a call on one agent changes that agent and the
  shared bus only.  The floating-point \<open>simulation_time\<close> and the wall-clock fields
  are left out.
\<close>

record 'x simulation_manager =
  agents :: "'x base_agent_scheme list"
  bus :: message_bus
  current_step :: nat
  is_running :: bool
  is_paused :: bool

type_synonym 'x behaviour =
  "('x base_agent_scheme \<times> message_bus) \<Rightarrow> ('x base_agent_scheme \<times> message_bus) outcome"

definition start_simulation :: "'x simulation_manager \<Rightarrow> 'x simulation_manager" where
  "start_simulation m =
     (if is_running m then m else m\<lparr>is_running := True, is_paused := False, current_step := 0\<rparr>)"

definition pause_simulation :: "'x simulation_manager \<Rightarrow> 'x simulation_manager" where
  "pause_simulation m = (if \<not> is_running m then m else m\<lparr>is_paused := True\<rparr>)"

definition resume_simulation :: "'x simulation_manager \<Rightarrow> 'x simulation_manager" where
  "resume_simulation m = (if \<not> is_running m then m else m\<lparr>is_paused := False\<rparr>)"

fun deactivate_all ::
  "'x base_agent_scheme list \<Rightarrow> message_bus \<Rightarrow> 'x base_agent_scheme list \<times> message_bus" where
  "deactivate_all [] b = ([], b)"
| "deactivate_all (a # rest) b =
     (let (a', b') = deactivate (a, b);
          (rest', b'') = deactivate_all rest b'
      in (a' # rest', b''))"

definition stop_simulation :: "'x simulation_manager \<Rightarrow> 'x simulation_manager" where
  "stop_simulation m =
     (let (as, b) = deactivate_all (agents m) (bus m)
      in m\<lparr>is_running := False, is_paused := False, agents := as, bus := clear_all_queues b\<rparr>)"

text \<open>The first loop of \<open>step\<close>: every active agent processes its mailbox.\<close>

fun deliver_phase ::
  "(message \<Rightarrow> 'x behaviour) \<Rightarrow> 'x base_agent_scheme list \<Rightarrow> message_bus
     \<Rightarrow> 'x base_agent_scheme list \<times> message_bus" where
  "deliver_phase hm [] b = ([], b)"
| "deliver_phase hm (a # rest) b =
     (if is_active a
      then (let (a', b') = process_messages hm (a, b);
                (rest', b'') = deliver_phase hm rest b'
            in (a' # rest', b''))
      else (let (rest', b'') = deliver_phase hm rest b in (a # rest', b'')))"

text \<open>
  The second loop of \<open>step\<close>: every active agent steps; an agent whose step raises is
  deactivated and not counted.  The result carries the counter \<open>active_agents\<close>.
\<close>

fun advance_phase ::
  "'x behaviour \<Rightarrow> 'x base_agent_scheme list \<Rightarrow> message_bus
     \<Rightarrow> 'x base_agent_scheme list \<times> message_bus \<times> nat" where
  "advance_phase stp [] b = ([], b, 0)"
| "advance_phase stp (a # rest) b =
     (if is_active a
      then (case stp (a, b) of
              ((a', b'), None) \<Rightarrow>
                (let (rest', b'', n) = advance_phase stp rest b' in (a' # rest', b'', n + 1))
            | ((a', b'), Some e) \<Rightarrow>
                (let (d, bd) = deactivate (a', b');
                     (rest', b'', n) = advance_phase stp rest bd
                 in (d # rest', b'', n)))
      else (let (rest', b'', n) = advance_phase stp rest b in (a # rest', b'', n)))"

definition step ::
  "(message \<Rightarrow> 'x behaviour) \<Rightarrow> 'x behaviour \<Rightarrow> 'x simulation_manager
     \<Rightarrow> 'x simulation_manager \<times> bool" where
  "step hm stp m =
     (if \<not> is_running m \<or> is_paused m then (m, False)
      else let (as1, b1) = deliver_phase hm (agents m) (bus m);
               (as2, b2, active_agents) = advance_phase stp as1 b1;
               m' = m\<lparr>agents := as2, bus := b2, current_step := current_step m + 1\<rparr>
           in if active_agents = 0 then (stop_simulation m', False) else (m', True))"

text \<open>
  \<open>run_for_steps\<close>: the loop stops at the first \<open>step\<close> that returns false.  The sleep
  between two steps is left out.
\<close>

fun steps_loop ::
  "(message \<Rightarrow> 'x behaviour) \<Rightarrow> 'x behaviour \<Rightarrow> nat \<Rightarrow> 'x simulation_manager
     \<Rightarrow> 'x simulation_manager" where
  "steps_loop hm stp 0 m = m"
| "steps_loop hm stp (Suc n) m =
     (let (m', ok) = step hm stp m
      in if \<not> ok then m' else steps_loop hm stp n m')"

definition run_for_steps ::
  "(message \<Rightarrow> 'x behaviour) \<Rightarrow> 'x behaviour \<Rightarrow> nat \<Rightarrow> 'x simulation_manager
     \<Rightarrow> 'x simulation_manager" where
  "run_for_steps hm stp num_steps m =
     steps_loop hm stp num_steps (if \<not> is_running m then start_simulation m else m)"

section \<open>The roles behind the scheduler's interface\<close>

text \<open>
  A roster holds trucks, warehouses and factories side by side.  The fields a role
  adds to \<open>BaseAgent\<close> are kept under a tag, and a call of \<open>handle_message\<close> or \<open>step\<close>
  goes to the method of the tagged class.  The directory \<open>cm\<close> and the clock are the
  objects the agents were built with.
\<close>

datatype role =
    TruckRole "unit truck_ext"
  | WarehouseRole "unit warehouse_ext"
  | FactoryRole "unit factory_ext"

type_synonym agent = "role base_agent_scheme"

definition with_role :: "'a base_agent_scheme \<Rightarrow> 'b \<Rightarrow> 'b base_agent_scheme" where
  "with_role a r = \<lparr> agent_id = agent_id a, location = location a, active = active a, \<dots> = r \<rparr>"

definition Truck :: "truck \<Rightarrow> agent" where
  "Truck t = with_role t (TruckRole (base_agent.more t))"

definition Warehouse :: "warehouse \<Rightarrow> agent" where
  "Warehouse w = with_role w (WarehouseRole (base_agent.more w))"

definition Factory :: "factory \<Rightarrow> agent" where
  "Factory f = with_role f (FactoryRole (base_agent.more f))"

definition on_truck :: "(truck_state \<Rightarrow> truck_state outcome) \<Rightarrow> unit truck_ext \<Rightarrow> role behaviour" where
  "on_truck f x s = (case f (with_role (fst s) x, snd s) of
                       ((t, b), e) \<Rightarrow> ((Truck t, b), e))"

definition on_warehouse ::
  "(warehouse_state \<Rightarrow> warehouse_state outcome) \<Rightarrow> unit warehouse_ext \<Rightarrow> role behaviour" where
  "on_warehouse f x s = (case f (with_role (fst s) x, snd s) of
                           ((w, b), e) \<Rightarrow> ((Warehouse w, b), e))"

definition on_factory ::
  "(factory_state \<Rightarrow> factory_state outcome) \<Rightarrow> unit factory_ext \<Rightarrow> role behaviour" where
  "on_factory f x s = (case f (with_role (fst s) x, snd s) of
                         ((t, b), e) \<Rightarrow> ((Factory t, b), e))"

definition agent_handle_message :: "city_map \<Rightarrow> message \<Rightarrow> role behaviour" where
  "agent_handle_message cm m s =
     (case base_agent.more (fst s) of
        TruckRole x \<Rightarrow> on_truck (truck_handle_message cm m) x s
      | WarehouseRole x \<Rightarrow> on_warehouse (warehouse_handle_message m) x s
      | FactoryRole x \<Rightarrow> on_factory (factory_handle_message m) x s)"

definition agent_step :: "city_map \<Rightarrow> (string option \<Rightarrow> nat) \<Rightarrow> role behaviour" where
  "agent_step cm clock s =
     (case base_agent.more (fst s) of
        TruckRole x \<Rightarrow> on_truck (truck_step cm) x s
      | WarehouseRole x \<Rightarrow> on_warehouse (warehouse_step clock) x s
      | FactoryRole x \<Rightarrow> on_factory factory_step x s)"

section \<open>Properties carried through the operations\<close>

text \<open>
  \<open>base_kept\<close>: an operation leaves the agent's identifier and its active flag as
  they were.  \<open>keeps R f\<close>: the agent after statement \<open>f\<close> is related by \<open>R\<close> to the
  agent before, whether or not \<open>f\<close> raised.  \<open>pool_ok\<close>: the available list of a
  warehouse has no duplicates and shares no truck with the assigned table.
\<close>

definition base_kept :: "'a base_agent_scheme \<Rightarrow> 'a base_agent_scheme \<Rightarrow> bool" where
  "base_kept a a' = (agent_id a' = agent_id a \<and> active a' = active a)"

definition keeps ::
  "('a \<Rightarrow> 'a \<Rightarrow> bool) \<Rightarrow> ('a \<times> message_bus \<Rightarrow> ('a \<times> message_bus) outcome) \<Rightarrow> bool" where
  "keeps R f = (\<forall>s. R (fst s) (fst (fst (f s))))"

definition preorder_on_agents :: "('a \<Rightarrow> 'a \<Rightarrow> bool) \<Rightarrow> bool" where
  "preorder_on_agents R = ((\<forall>a. R a a) \<and> (\<forall>a b c. R a b \<and> R b c \<longrightarrow> R a c))"

definition pool_ok :: "warehouse \<Rightarrow> bool" where
  "pool_ok w = (distinct (available_trucks w) \<and>
                (\<forall>t \<in> set (available_trucks w). \<not> dict_has (assigned_trucks w) t))"

definition wkept :: "warehouse \<Rightarrow> warehouse \<Rightarrow> bool" where
  "wkept w w' = (base_kept w w' \<and> (pool_ok w \<longrightarrow> pool_ok w'))"

text \<open>What the second loop does to the agent at one roster position.\<close>

definition advanced_as :: "'x behaviour \<Rightarrow> 'x base_agent_scheme \<Rightarrow> 'x base_agent_scheme \<Rightarrow> bool" where
  "advanced_as stp a a2 =
     (if active a
      then (\<exists>bi. a2 = (if snd (stp (a, bi)) = None then fst (fst (stp (a, bi)))
                       else (fst (fst (stp (a, bi))))\<lparr>active := False\<rparr>))
      else a2 = a)"

text \<open>What the first loop does to the agent at one roster position.\<close>

definition delivered_as ::
  "(message \<Rightarrow> 'x behaviour) \<Rightarrow> 'x base_agent_scheme \<Rightarrow> 'x base_agent_scheme \<Rightarrow> bool" where
  "delivered_as hm a a1 =
     (if active a then (\<exists>bi. a1 = fst (process_messages hm (a, bi))) else a1 = a)"

text \<open>
  \<open>own_mail aid s\<close>: the agent of the state is \<open>aid\<close>, and every envelope in the mailbox
  of \<open>aid\<close> was sent by \<open>aid\<close> itself.  \<open>stable P f\<close>: statement \<open>f\<close> keeps \<open>P\<close>, whether
  or not it raises.
\<close>

definition own_mail :: "string \<Rightarrow> ('a base_agent_scheme \<times> message_bus) \<Rightarrow> bool" where
  "own_mail aid s = (agent_id (fst s) = aid \<and>
                     (\<forall>m \<in> set (agent_queues (snd s) aid). sender m = aid))"

definition stable :: "('s \<Rightarrow> bool) \<Rightarrow> ('s \<Rightarrow> 's outcome) \<Rightarrow> bool" where
  "stable P f = (\<forall>s. P s \<longrightarrow> P (fst (f s)))"

text \<open>\<open>pool_same\<close>: both parts of the truck pool are as they were.\<close>

definition pool_same :: "warehouse \<Rightarrow> warehouse \<Rightarrow> bool" where
  "pool_same w w' = (available_trucks w' = available_trucks w \<and>
                     assigned_trucks w' = assigned_trucks w)"

text \<open>
  \<open>rejection_msg\<close>: the envelope that \<open>_reject_order\<close> sends for an order.
  \<open>short_of\<close>: the requested quantity of a pending order exceeds the inventory on
  hand for its product, that is, \<open>_can_fulfill_order\<close> is false.
\<close>

definition rejection_msg :: "warehouse \<Rightarrow> order \<Rightarrow> message" where
  "rejection_msg w ord =
     \<lparr> sender = agent_id w, recipient = requester ord, message_type = ''ORDER_REJECTED'',
       data = empty_payload\<lparr> key_order_id := Some (order_id ord),
          key_reason := Some (''Insufficient inventory. Available: ''
             @ str_of_int (inventory_get (inventory w) (Some (product_id ord)))
             @ '', Requested: '' @ str_of_int (quantity ord)) \<rparr> \<rparr>"

definition short_of :: "warehouse \<Rightarrow> (string \<times> order) \<Rightarrow> bool" where
  "short_of w item =
     (inventory_get (inventory w) (Some (product_id (snd item))) < quantity (snd item))"






section \<open>Concrete configurations\<close>

text \<open>The last \<open>n\<close> elements of a list: what a bounded mailbox retains.\<close>

definition keep_last :: "nat \<Rightarrow> 'a list \<Rightarrow> 'a list" where
  "keep_last n xs = drop (length xs - n) xs"

text \<open>A directory with a warehouse and a store, 25 distance units apart.\<close>

definition town :: city_map where
  "town = \<lparr> locations = [''wh1'', ''st1''], distance_to = (\<lambda>a b. 25) \<rparr>"

text \<open>A truck of capacity 100 that has arrived at the store with 30 units of order o1.\<close>

definition unloading_truck :: truck where
  "unloading_truck = (new_truck ''truck_warehouse_1_1'' ''st1'' 10 100)
     \<lparr> truck_status := ''unloading'', cargo := [(''p1'', 30)], current_cargo_weight := 30,
       current_order := Some \<lparr> cur_order_id = ''o1'', cur_product_id = ''p1'',
                               cur_quantity = 30, cur_recipient = ''store_1'' \<rparr>,
       pickup_location_id := Some ''wh1'', delivery_location_id := Some ''st1'',
       destination_location_id := Some ''st1'', dispatcher_id := Some ''warehouse_1'' \<rparr>"

text \<open>A \<open>DISPATCH_ORDER\<close> from the warehouse for product p1, picked up at wh1.\<close>

definition dispatch_msg :: "string \<Rightarrow> int option \<Rightarrow> string \<Rightarrow> message" where
  "dispatch_msg oid q dest =
     \<lparr> sender = ''warehouse_1'', recipient = ''truck_warehouse_1_1'',
       message_type = ''DISPATCH_ORDER'',
       data = empty_payload\<lparr> key_order_id := Some oid, key_product_id := Some ''p1'',
                key_quantity := q, key_pickup_location := Some ''wh1'',
                key_delivery_location := Some dest, key_recipient := Some ''store_1'' \<rparr> \<rparr>"

text \<open>
  A warehouse built with \<open>reorder_quantity = 0\<close>: its first step finds product p1
  below the threshold, and the \<open>Order\<close> constructor raises \<open>ValueError\<close> on the
  quantity 0.  Two rosters hold it, with and without a sound truck.  \<open>noon\<close> is the
  clock reading in every run below.
\<close>

definition misconfigured_warehouse :: warehouse where
  "misconfigured_warehouse = new_warehouse ''warehouse_1'' ''wh1'' [(Some ''p1'', 5)] 20 0 1"

definition faulty_roster :: "role simulation_manager" where
  "faulty_roster = \<lparr> agents = [Warehouse misconfigured_warehouse, Truck unloading_truck],
      bus = new_bus, current_step = 0, is_running = True, is_paused = False \<rparr>"

definition lone_faulty_roster :: "role simulation_manager" where
  "lone_faulty_roster = \<lparr> agents = [Warehouse misconfigured_warehouse],
      bus = new_bus, current_step = 0, is_running = True, is_paused = False \<rparr>"

definition noon :: "string option \<Rightarrow> nat" where
  "noon p = 1000"

text \<open>
  A warehouse with three trucks, of which the first is out delivering order o1, and the
  \<open>DELIVERY_COMPLETE\<close> that this truck sends.
\<close>

definition order_o1 :: order where
  "order_o1 = \<lparr> order_id = ''o1'', product_id = ''p1'', quantity = 30,
       requester = ''store_1'', status = ''processing'', delivery_location = Some ''st1'' \<rparr>"

definition busy_warehouse :: warehouse where
  "busy_warehouse = (new_warehouse ''warehouse_1'' ''wh1'' [(Some ''p1'', 20)] 20 100 3)
     \<lparr> available_trucks := [''truck_warehouse_1_2'', ''truck_warehouse_1_3''],
       assigned_trucks := [(''truck_warehouse_1_1'', ''o1'')],
       processing_orders := [(''o1'', order_o1)] \<rparr>"

definition delivery_complete_msg :: message where
  "delivery_complete_msg =
     \<lparr> sender = ''truck_warehouse_1_1'', recipient = ''warehouse_1'',
       message_type = ''DELIVERY_COMPLETE'',
       data = empty_payload\<lparr> key_order_id := Some ''o1'', key_product_id := Some ''p1'',
                key_quantity := Some 30, key_delivery_location := Some ''st1'' \<rparr> \<rparr>"

text \<open>
  A pending order for 30 units of p1, a warehouse that holds 5 units and one available
  truck, and a warehouse that holds 50 units while its only truck is out.
\<close>

definition order_30 :: order where
  "order_30 = \<lparr> order_id = ''o1'', product_id = ''p1'', quantity = 30,
       requester = ''store_1'', status = ''pending'', delivery_location = Some ''st1'' \<rparr>"

definition short_warehouse :: warehouse where
  "short_warehouse = (new_warehouse ''warehouse_1'' ''wh1'' [(Some ''p1'', 5)] 20 100 1)
     \<lparr> pending_store_orders := [(''o1'', order_30)] \<rparr>"

definition truckless_warehouse :: warehouse where
  "truckless_warehouse = (new_warehouse ''warehouse_1'' ''wh1'' [(Some ''p1'', 50)] 20 100 1)
     \<lparr> pending_store_orders := [(''o1'', order_30)], available_trucks := [],
       assigned_trucks := [(''truck_warehouse_1_1'', ''o0'')] \<rparr>"

text \<open>
  A warehouse with 50 units and one truck whose pending table holds, in this order, an
  order for 100 units, one for 30 and one for 10.
\<close>

definition big_order :: order where
  "big_order = \<lparr> order_id = ''o2'', product_id = ''p1'', quantity = 100,
       requester = ''store_1'', status = ''pending'', delivery_location = Some ''st1'' \<rparr>"

definition small_order :: order where
  "small_order = \<lparr> order_id = ''o3'', product_id = ''p1'', quantity = 10,
       requester = ''store_2'', status = ''pending'', delivery_location = Some ''st1'' \<rparr>"

definition mixed_warehouse :: warehouse where
  "mixed_warehouse = (new_warehouse ''warehouse_1'' ''wh1'' [(Some ''p1'', 50)] 20 100 1)
     \<lparr> pending_store_orders := [(''o2'', big_order), (''o1'', order_30), (''o3'', small_order)] \<rparr>"












text \<open>
  A roster whose first agent is a deactivated truck with a \<open>DISPATCH_ORDER\<close> waiting in
  its mailbox.
\<close>

definition parked_truck :: truck where
  "parked_truck = (new_truck ''truck_warehouse_1_1'' ''wh1'' 10 100)\<lparr>active := False\<rparr>"

definition parked_roster :: "role simulation_manager" where
  "parked_roster = \<lparr> agents = [Truck parked_truck, Warehouse busy_warehouse],
      bus = publish (dispatch_msg ''o1'' (Some 30) ''st1'') new_bus,
      current_step = 0, is_running = True, is_paused = False \<rparr>"



text \<open>A truck on its way to the store, with its speed and the distance it has to cover.\<close>

definition moving_truck :: "rat \<Rightarrow> rat \<Rightarrow> truck" where
  "moving_truck spd far = (new_truck ''truck_warehouse_1_1'' ''wh1'' spd 100)
     \<lparr> truck_status := ''moving_to_delivery'', delivery_location_id := Some ''st1'',
       destination_location_id := Some ''st1'', total_distance := far,
       remaining_distance := far \<rparr>"

section \<open>Mailbox bound\<close>

lemma keep_last_append:
  "keep_last n (keep_last n xs @ ys) = keep_last n (xs @ ys)"
proof (cases "length xs \<le> n")
  case True
  then show ?thesis by (simp add: keep_last_def)
next
  case False
  then have "length xs - n + n = length xs" by simp
  then show ?thesis using False
    by (simp add: keep_last_def add.commute)
qed

lemma keep_last_short: "length xs \<le> n \<Longrightarrow> keep_last n xs = xs"
  by (simp add: keep_last_def)

lemma length_keep_last: "length (keep_last n xs) = min n (length xs)"
  by (simp add: keep_last_def)

lemma publish_queue_same:
  "agent_queues (publish m b) (recipient m) =
     (if length (agent_queues b (recipient m)) \<ge> 100
      then tl (agent_queues b (recipient m)) else agent_queues b (recipient m)) @ [m]"
  by (simp add: publish_def max_queue_size_def Let_def)

lemma publish_queue_other:
  "r \<noteq> recipient m \<Longrightarrow> agent_queues (publish m b) r = agent_queues b r"
  by (simp add: publish_def Let_def)

lemma publish_length_le:
  "length (agent_queues b r) \<le> 100 \<Longrightarrow> length (agent_queues (publish m b) r) \<le> 100"
  by (cases "r = recipient m") (auto simp: publish_queue_same publish_queue_other)

lemma publish_all_length_le:
  "length (agent_queues b r) \<le> 100 \<Longrightarrow> length (agent_queues (publish_all ms b) r) \<le> 100"
  by (induction ms arbitrary: b) (simp_all add: publish_length_le)

lemma publish_full:
  "length (agent_queues b (recipient m)) = 100 \<Longrightarrow>
   agent_queues (publish m b) (recipient m) = tl (agent_queues b (recipient m)) @ [m]"
  by (simp add: publish_queue_same)

lemma publish_keeps_last:
  assumes "length (agent_queues b (recipient m)) \<le> 100"
  shows "agent_queues (publish m b) (recipient m)
           = keep_last 100 (agent_queues b (recipient m) @ [m])"
proof (cases "length (agent_queues b (recipient m)) = 100")
  case True
  then show ?thesis
    by (cases "agent_queues b (recipient m)") (simp_all add: publish_queue_same keep_last_def)
next
  case False
  with assms have "length (agent_queues b (recipient m)) < 100" by simp
  then show ?thesis by (simp add: publish_queue_same keep_last_def)
qed

lemma publish_all_queue:
  "\<forall>m \<in> set ms. recipient m = r \<Longrightarrow> length (agent_queues b r) \<le> 100 \<Longrightarrow>
   agent_queues (publish_all ms b) r = keep_last 100 (agent_queues b r @ ms)"
proof (induction ms arbitrary: b)
  case Nil
  then show ?case by (simp add: keep_last_short)
next
  case (Cons m ms)
  have rm: "recipient m = r" using Cons.prems(1) by simp
  have q1: "agent_queues (publish m b) r = keep_last 100 (agent_queues b r @ [m])"
    using publish_keeps_last[of b m] Cons.prems(2) rm by simp
  have len1: "length (agent_queues (publish m b) r) \<le> 100"
    using Cons.prems(2) by (rule publish_length_le)
  have "agent_queues (publish_all ms (publish m b)) r
      = keep_last 100 (agent_queues (publish m b) r @ ms)"
    using Cons.IH[of "publish m b"] Cons.prems(1) len1 by simp
  also have "\<dots> = keep_last 100 ((agent_queues b r @ [m]) @ ms)"
    unfolding q1 by (rule keep_last_append)
  finally show ?case by simp
qed

text \<open>
  Claim C2.  For every sequence of publishes to one recipient whose mailbox was empty
  and is not drained in between, the mailbox holds at most 100 envelopes; a publish
  that meets a full mailbox drops the oldest envelope and appends the new one; and
  after 101 publishes a drain returns exactly 100 envelopes, the 2nd to the 101st in
  publish order, and leaves the mailbox empty.
\<close>

theorem mailbox_drop_oldest:
  assumes "\<forall>m \<in> set ms. recipient m = r" and "agent_queues b r = []"
  shows "length (agent_queues (publish_all ms b) r) \<le> 100 \<and>
         (length (agent_queues b' (recipient m')) = 100 \<longrightarrow>
            agent_queues (publish m' b') (recipient m')
              = tl (agent_queues b' (recipient m')) @ [m']) \<and>
         (length ms = 101 \<longrightarrow>
            fst (deliver_messages r (publish_all ms b)) = tl ms \<and>
            length (fst (deliver_messages r (publish_all ms b))) = 100 \<and>
            agent_queues (snd (deliver_messages r (publish_all ms b))) r = [])"
proof -
  have q: "agent_queues (publish_all ms b) r = keep_last 100 ms"
    using publish_all_queue[of ms r b] assms by simp
  have 1: "length (agent_queues (publish_all ms b) r) \<le> 100"
    by (simp add: q length_keep_last)
  have 2: "length (agent_queues b' (recipient m')) = 100 \<longrightarrow>
            agent_queues (publish m' b') (recipient m')
              = tl (agent_queues b' (recipient m')) @ [m']"
    by (simp add: publish_full)
  have 3: "length ms = 101 \<longrightarrow>
            fst (deliver_messages r (publish_all ms b)) = tl ms \<and>
            length (fst (deliver_messages r (publish_all ms b))) = 100 \<and>
            agent_queues (snd (deliver_messages r (publish_all ms b))) r = []"
    by (simp add: deliver_messages_def q keep_last_def drop_Suc)
  from 1 2 3 show ?thesis by blast
qed

theorem mailbox_drop_oldest_witness:
  "length (agent_queues (publish_all (map (numbered ''store_1'' ''warehouse_1'') [0..<101]) new_bus)
      ''warehouse_1'') \<le> 100 \<and>
   fst (deliver_messages ''warehouse_1''
      (publish_all (map (numbered ''store_1'' ''warehouse_1'') [0..<101]) new_bus))
     = map (numbered ''store_1'' ''warehouse_1'') [1..<101] \<and>
   length (fst (deliver_messages ''warehouse_1''
      (publish_all (map (numbered ''store_1'' ''warehouse_1'') [0..<101]) new_bus))) = 100 \<and>
   agent_queues (publish (numbered ''store_1'' ''warehouse_1'' 100)
        (publish_all (map (numbered ''store_1'' ''warehouse_1'') [0..<100]) new_bus)) ''warehouse_1''
     = tl (agent_queues (publish_all (map (numbered ''store_1'' ''warehouse_1'') [0..<100]) new_bus)
             ''warehouse_1'') @ [numbered ''store_1'' ''warehouse_1'' 100]"
proof -
  let ?mk = "numbered ''store_1'' ''warehouse_1''"
  have rcp: "\<forall>m \<in> set (map ?mk [0..<101]). recipient m = ''warehouse_1''"
    by (simp add: numbered_def)
  have e: "agent_queues new_bus ''warehouse_1'' = []"
    by (simp add: new_bus_def)
  have full: "length (agent_queues (publish_all (map ?mk [0..<100]) new_bus) ''warehouse_1'') = 100"
    using publish_all_queue[of "map ?mk [0..<100]" "''warehouse_1''" new_bus]
    by (simp add: numbered_def new_bus_def keep_last_def)
  have tl101: "tl (map ?mk [0..<101]) = map ?mk [1..<101]"
    by (simp add: upt_conv_Cons[of 0 101])
  have r100: "recipient (?mk 100) = ''warehouse_1''"
    by (simp add: numbered_def)
  show ?thesis
    using mailbox_drop_oldest[OF rcp e,
        of "publish_all (map ?mk [0..<100]) new_bus" "?mk 100"] full tl101 r100
    by simp
qed

section \<open>Order status\<close>

text \<open>
  Claim C3 as stated fails: \<open>update_status\<close> checks only that the new status is one
  of the five names, so a delivered order can be set back to pending, and a pending
  order can be set to delivered directly.
\<close>

theorem update_status_regress_counterexample:
  "update_status \<lparr> order_id = ''o1'', product_id = ''p1'', quantity = 5,
       requester = ''store_1'', status = ''delivered'', delivery_location = None \<rparr> ''pending''
     = Inr \<lparr> order_id = ''o1'', product_id = ''p1'', quantity = 5,
       requester = ''store_1'', status = ''pending'', delivery_location = None \<rparr> \<and>
   update_status \<lparr> order_id = ''o1'', product_id = ''p1'', quantity = 5,
       requester = ''store_1'', status = ''pending'', delivery_location = None \<rparr> ''delivered''
     = Inr \<lparr> order_id = ''o1'', product_id = ''p1'', quantity = 5,
       requester = ''store_1'', status = ''delivered'', delivery_location = None \<rparr>"
  by (simp add: update_status_def valid_statuses_def)

text \<open>
  Claim C3, amended.  From any current status, \<open>update_status\<close> accepts each of the
  five status names and stores it, leaving the other fields alone; any other name
  raises \<open>ValueError\<close>.
\<close>

theorem update_status_any_valid:
  "(new_status \<in> set valid_statuses \<longrightarrow>
      update_status ord new_status = Inr (ord\<lparr>status := new_status\<rparr>)) \<and>
   (new_status \<notin> set valid_statuses \<longrightarrow> update_status ord new_status = Inl ValueError)"
  by (simp add: update_status_def)

theorem update_status_any_valid_witness:
  "update_status \<lparr> order_id = ''o1'', product_id = ''p1'', quantity = 5,
       requester = ''store_1'', status = ''cancelled'', delivery_location = None \<rparr> ''processing''
     = Inr \<lparr> order_id = ''o1'', product_id = ''p1'', quantity = 5,
       requester = ''store_1'', status = ''processing'', delivery_location = None \<rparr> \<and>
   update_status \<lparr> order_id = ''o1'', product_id = ''p1'', quantity = 5,
       requester = ''store_1'', status = ''cancelled'', delivery_location = None \<rparr> ''lost''
     = Inl ValueError"
  using update_status_any_valid[of "''processing''" "\<lparr> order_id = ''o1'', product_id = ''p1'',
       quantity = 5, requester = ''store_1'', status = ''cancelled'', delivery_location = None \<rparr>"]
    update_status_any_valid[of "''lost''" "\<lparr> order_id = ''o1'', product_id = ''p1'',
       quantity = 5, requester = ''store_1'', status = ''cancelled'', delivery_location = None \<rparr>"]
  by (simp add: valid_statuses_def)

section \<open>The carrier\<close>

text \<open>
  Sample values of the rounding, and movement steps computed with it: \<open>0.1 + 0.2\<close> is
  \<open>0.30000000000000004\<close>, and a truck \<open>0.3\<close> away at speed \<open>0.1\<close> has
  \<open>0.19999999999999998\<close> and then \<open>0.09999999999999998\<close> left to go.
\<close>

lemma round_double_samples:
  "round_double (1 / 10) = 3602879701896397 / 36028797018963968 \<and>
   round_double (1 / 100) = 5764607523034235 / 576460752303423488 \<and>
   float_add (round_double (1 / 10)) (round_double (2 / 10)) = 1351079888211149 / 4503599627370496 \<and>
   round_double 25 = 25"
  by code_simp

lemma movement_by_doubles:
  "(let t1 = move_towards_destination (moving_truck 10 25);
        t2 = move_towards_destination t1;
        t3 = move_towards_destination t2
    in remaining_distance t1 = 15 \<and> \<not> has_reached_destination t1 \<and>
       remaining_distance t2 = 5 \<and> \<not> has_reached_destination t2 \<and>
       remaining_distance t3 = 0 \<and> has_reached_destination t3)"
  by code_simp

lemma movement_rounds:
  "(let u1 = move_towards_destination (moving_truck (round_double (1 / 10)) (round_double (3 / 10)));
        u2 = move_towards_destination u1
    in remaining_distance u1 = 7205759403792793 / 36028797018963968 \<and>
       remaining_distance u2 = 900719925474099 / 9007199254740992 \<and>
       \<not> has_reached_destination u2)"
  by code_simp


lemma reset_to_available_silent:
  "reset_to_available s =
     (((fst s)\<lparr> truck_status := ''available'', current_order := None,
                pickup_location_id := None, delivery_location_id := None,
                destination_location_id := None, dispatcher_id := None,
                movement_progress := 0, total_distance := 0, remaining_distance := 0 \<rparr>,
       snd s), None)"
  by (simp add: reset_to_available_def truthy_def done_ok_def Let_def)

lemma send_message_ok:
  "agent_id (fst s) \<noteq> [] \<Longrightarrow> rcp \<noteq> [] \<Longrightarrow> mtype \<noteq> [] \<Longrightarrow>
   send_message rcp mtype d s =
     ((fst s, publish \<lparr> sender = agent_id (fst s), recipient = rcp,
                        message_type = mtype, data = d \<rparr> (snd s)), None)"
  by (simp add: send_message_def Message_def)

text \<open>
  Whatever the cargo, a truck that unloads with a current order publishes exactly
  \<open>DELIVERY_COMPLETE\<close> and \<open>DELIVERY_NOTIFICATION\<close> and becomes available; the reset
  publishes nothing.
\<close>

lemma complete_unloading_publishes:
  assumes "current_order (fst s) = Some co" and "agent_id (fst s) \<noteq> []"
    and "dispatcher_id (fst s) = Some dsp" and "dsp \<noteq> []" and "cur_recipient co \<noteq> []"
  shows "\<exists>t'. complete_unloading s =
           ((t', publish \<lparr> sender = agent_id (fst s), recipient = cur_recipient co,
                   message_type = ''DELIVERY_NOTIFICATION'',
                   data = empty_payload\<lparr> key_order_id := Some (cur_order_id co),
                            key_product_id := Some (cur_product_id co),
                            key_quantity := Some (cur_quantity co) \<rparr> \<rparr>
                  (publish \<lparr> sender = agent_id (fst s), recipient = dsp,
                     message_type = ''DELIVERY_COMPLETE'',
                     data = empty_payload\<lparr> key_order_id := Some (cur_order_id co),
                              key_product_id := Some (cur_product_id co),
                              key_quantity := Some (cur_quantity co),
                              key_delivery_location := delivery_location_id (fst s) \<rparr> \<rparr>
                     (snd s))), None)
         \<and> truck_status t' = ''available'' \<and> dispatcher_id t' = None"
  using assms
  by (simp add: complete_unloading_def Let_def andthen_def send_message_ok
      reset_to_available_silent or_empty_def)

text \<open>
  Claim C4 at a concrete input: a truck that unloads order o1 ends available, with
  empty cargo, having sent \<open>DELIVERY_COMPLETE\<close> to its dispatcher and
  \<open>DELIVERY_NOTIFICATION\<close> to the recipient, but the dispatcher's mailbox holds no
  \<open>TRUCK_AVAILABLE\<close>: \<open>_reset_to_available\<close> clears \<open>dispatcher_id\<close> before it tests it.
\<close>

theorem unloading_sends_no_truck_available:
  "(let r = truck_step town (unloading_truck, new_bus) in
      snd r = None \<and>
      truck_status (fst (fst r)) = ''available'' \<and>
      cargo (fst (fst r)) = [] \<and>
      current_cargo_weight (fst (fst r)) = 0 \<and>
      map message_type (agent_queues (snd (fst r)) ''warehouse_1'') = [''DELIVERY_COMPLETE''] \<and>
      map message_type (agent_queues (snd (fst r)) ''store_1'') = [''DELIVERY_NOTIFICATION''])"
  by code_simp

text \<open>
  A dispatch instruction is dropped without any change when the truck is not
  available, when one of the five checked fields is missing or empty, or when the
  quantity exceeds the capacity.
\<close>

lemma dispatch_rejected_unchanged:
  assumes "truck_status (fst s) \<noteq> ''available'' \<or>
           \<not> truthy (key_order_id (data m)) \<or> \<not> truthy (key_product_id (data m)) \<or>
           \<not> truthy (key_pickup_location (data m)) \<or> \<not> truthy (key_delivery_location (data m)) \<or>
           \<not> truthy (key_recipient (data m)) \<or>
           (case key_quantity (data m) of None \<Rightarrow> 0 | Some n \<Rightarrow> n) > capacity (fst s)"
  shows "handle_dispatch_order cm m s = (s, None)"
  using assms by (auto simp: handle_dispatch_order_def Let_def done_ok_def)

text \<open>
  Claim C8 at a concrete input: a \<open>DISPATCH_ORDER\<close> without the key \<open>quantity\<close> is
  not rejected.  The available truck accepts it with quantity 0 and starts loading.
\<close>

theorem dispatch_without_quantity_accepted:
  "(let r = truck_handle_message town (dispatch_msg ''o1'' None ''st1'')
              (new_truck ''truck_warehouse_1_1'' ''wh1'' 10 100, new_bus) in
      truck_status (fst (fst r)) = ''loading'' \<and>
      current_order (fst (fst r)) =
        Some \<lparr> cur_order_id = ''o1'', cur_product_id = ''p1'', cur_quantity = 0,
               cur_recipient = ''store_1'' \<rparr> \<and>
      dispatcher_id (fst (fst r)) = Some ''warehouse_1'')"
  by code_simp

text \<open>
  Claim C9 at a concrete input: a truck of capacity 100 is dispatched with 80 units
  to a delivery location the directory does not know.  It loads, fails to compute the
  distance and resets to available with the 80 units still aboard.  A second dispatch
  of 80 units is accepted and loaded: the truck carries 160 units.
\<close>

theorem cargo_exceeds_capacity_after_reset:
  "(let s0 = (new_truck ''truck_warehouse_1_1'' ''wh1'' 10 100,
              publish (dispatch_msg ''o1'' (Some 80) ''nowhere'') new_bus);
        r1 = truck_step town s0;
        r2 = truck_step town (fst (fst r1),
               publish (dispatch_msg ''o2'' (Some 80) ''st1'') (snd (fst r1)))
    in snd r1 = None \<and> snd r2 = None \<and>
       truck_status (fst (fst r1)) = ''available'' \<and>
       cargo (fst (fst r1)) = [(''p1'', 80)] \<and>
       truck_status (fst (fst r2)) = ''moving_to_delivery'' \<and>
       cargo (fst (fst r2)) = [(''p1'', 160)] \<and>
       current_cargo_weight (fst (fst r2)) = 160 \<and>
       capacity (fst (fst r2)) = 100)"
  by code_simp

section \<open>Frames of the operations\<close>

lemma pre_refl: "preorder_on_agents R \<Longrightarrow> R a a"
  by (simp add: preorder_on_agents_def)

lemma pre_trans: "preorder_on_agents R \<Longrightarrow> R a b \<Longrightarrow> R b c \<Longrightarrow> R a c"
  unfolding preorder_on_agents_def by blast

lemma base_kept_refl [simp]: "base_kept a a"
  by (simp add: base_kept_def)

lemma base_kept_pre [simp]: "preorder_on_agents base_kept"
  by (simp add: preorder_on_agents_def base_kept_def)

lemma keepsD: "keeps R f \<Longrightarrow> R (fst s) (fst (fst (f s)))"
  unfolding keeps_def by blast

lemma keepsI: "(\<And>s. R (fst s) (fst (fst (f s)))) \<Longrightarrow> keeps R f"
  by (simp add: keeps_def)

lemma keeps_after: "preorder_on_agents R \<Longrightarrow> keeps R f \<Longrightarrow> R a (fst s) \<Longrightarrow> R a (fst (fst (f s)))"
  by (blast intro: pre_trans keepsD)

lemma keeps_send: "preorder_on_agents R \<Longrightarrow> keeps R (send_message r t d)"
  by (auto simp: keeps_def send_message_def pre_refl split: sum.splits)

lemma keeps_done: "preorder_on_agents R \<Longrightarrow> keeps R done_ok"
  by (simp add: keeps_def done_ok_def pre_refl)

lemma kept_andthen:
  "preorder_on_agents R \<Longrightarrow> R a (fst (fst r)) \<Longrightarrow> keeps R g \<Longrightarrow> R a (fst (fst (andthen r g)))"
  by (cases r) (auto simp: andthen_def split: option.splits intro: keeps_after)

lemma keeps_andthen:
  "preorder_on_agents R \<Longrightarrow> keeps R f \<Longrightarrow> keeps R g \<Longrightarrow> keeps R (\<lambda>s. andthen (f s) g)"
  by (rule keepsI) (blast intro: kept_andthen keepsD)

lemma kept_send_andthen:
  "preorder_on_agents R \<Longrightarrow> R a t \<Longrightarrow> keeps R g \<Longrightarrow>
   R a (fst (fst (andthen (send_message r ty d (t, b)) g)))"
  by (rule kept_andthen) (simp_all add: send_message_def split: sum.splits)

lemma kept_send:
  "R a t \<Longrightarrow> R a (fst (fst (send_message r ty d (t, b))))"
  by (simp add: send_message_def split: sum.splits)

lemma keeps_swallow: "keeps R f \<Longrightarrow> keeps R (\<lambda>s. done_ok (fst (f s)))"
  by (simp add: keeps_def done_ok_def)

lemma handle_each_kept:
  "preorder_on_agents R \<Longrightarrow> (\<And>m. keeps R (h m)) \<Longrightarrow> R a (fst s) \<Longrightarrow>
   R a (fst (handle_each h ms s))"
proof (induction ms arbitrary: s)
  case Nil
  then show ?case by simp
next
  case (Cons m ms)
  have "R a (fst (fst (h m s)))"
    using Cons.prems by (blast intro: keeps_after)
  then show ?case using Cons by simp
qed

lemma process_messages_kept:
  "preorder_on_agents R \<Longrightarrow> (\<And>m. keeps R (h m)) \<Longrightarrow> R (fst s) (fst (process_messages h s))"
  using handle_each_kept[of R h "fst s" "(fst s, snd (deliver_messages (agent_id (fst s)) (snd s)))"]
  by (simp add: process_messages_def split_def Let_def pre_refl)

subsection \<open>The truck keeps its identity and its active flag\<close>

lemma keeps_reset: "keeps base_kept reset_to_available"
  by (simp add: keeps_def reset_to_available_silent base_kept_def)

lemma keeps_start_pickup: "keeps base_kept (start_movement_to_pickup cm)"
  by (auto simp: keeps_def start_movement_to_pickup_def Let_def done_ok_def
      reset_to_available_silent base_kept_def split: sum.splits exn.splits)

lemma keeps_start_delivery: "keeps base_kept (start_movement_to_delivery cm)"
  by (auto simp: keeps_def start_movement_to_delivery_def Let_def done_ok_def
      reset_to_available_silent base_kept_def split: sum.splits exn.splits)

lemma arrive_pickup_kept: "base_kept t (arrive_at_pickup cm t)"
  by (simp add: arrive_at_pickup_def base_kept_def Let_def split: option.splits)

lemma arrive_delivery_kept: "base_kept t (arrive_at_delivery cm t)"
  by (simp add: arrive_at_delivery_def base_kept_def Let_def split: option.splits)

lemma move_kept: "base_kept t (move_towards_destination t)"
  by (simp add: move_towards_destination_def base_kept_def Let_def)

lemma keeps_complete_loading: "keeps base_kept (complete_loading cm)"
proof (rule keepsI)
  fix s :: truck_state
  show "base_kept (fst s) (fst (fst (complete_loading cm s)))"
  proof (cases "current_order (fst s)")
    case None
    then show ?thesis by (simp add: complete_loading_def reset_to_available_silent base_kept_def)
  next
    case (Some co)
    have g: "keeps base_kept (\<lambda>s1. if current_location_id (fst s1) = delivery_location_id (fst s1)
                     then done_ok (arrive_at_delivery cm (fst s1), snd s1)
                     else start_movement_to_delivery cm s1)"
      using keepsD[OF keeps_start_delivery, of _ cm]
      by (auto simp: done_ok_def arrive_delivery_kept intro!: keepsI)
    show ?thesis
      using Some
      apply (simp add: complete_loading_def Let_def)
      apply (rule kept_send_andthen[OF base_kept_pre _ g])
      apply (simp add: base_kept_def)
      done
  qed
qed

lemma keeps_complete_unloading: "keeps base_kept complete_unloading"
proof (rule keepsI)
  fix s :: truck_state
  show "base_kept (fst s) (fst (fst (complete_unloading s)))"
  proof (cases "current_order (fst s)")
    case None
    then show ?thesis by (simp add: complete_unloading_def reset_to_available_silent base_kept_def)
  next
    case (Some co)
    show ?thesis
      using Some
      apply (simp add: complete_unloading_def Let_def split del: if_split)
      apply (rule kept_send_andthen[OF base_kept_pre])
       apply (simp add: base_kept_def)
      apply (rule keeps_andthen[OF base_kept_pre keeps_send[OF base_kept_pre] keeps_reset])
      done
  qed
qed

lemma keeps_handle_dispatch: "keeps base_kept (handle_dispatch_order cm m)"
proof (rule keepsI)
  fix s :: truck_state
  have 1: "\<And>t b. base_kept (fst s) t \<Longrightarrow> base_kept (fst s) (fst (fst (start_movement_to_pickup cm (t, b))))"
    using keeps_after[OF base_kept_pre keeps_start_pickup] by fastforce
  show "base_kept (fst s) (fst (fst (handle_dispatch_order cm m s)))"
    apply (simp add: handle_dispatch_order_def Let_def done_ok_def)
    apply (intro conjI impI 1)
     apply (rule pre_trans[OF base_kept_pre _ arrive_pickup_kept])
     apply (simp_all add: base_kept_def)
    done
qed

lemma keeps_truck_handle: "keeps base_kept (truck_handle_message cm m)"
  using keepsD[OF keeps_handle_dispatch]
  by (auto simp: truck_handle_message_def done_ok_def pre_refl intro!: keepsI)

lemma keeps_truck_step: "keeps base_kept (truck_step cm)"
proof (rule keepsI)
  fix s0 :: truck_state
  let ?s = "process_messages (truck_handle_message cm) s0"
  have p: "base_kept (fst s0) (fst ?s)"
    by (rule process_messages_kept[OF base_kept_pre keeps_truck_handle])
  have "base_kept (fst ?s) (fst (fst (truck_step cm s0)))"
    using keepsD[OF keeps_complete_loading, of ?s cm] keepsD[OF keeps_complete_unloading, of ?s]
    by (auto simp: truck_step_def Let_def done_ok_def pre_refl
        intro: pre_trans[OF base_kept_pre move_kept arrive_pickup_kept]
               pre_trans[OF base_kept_pre move_kept arrive_delivery_kept] move_kept)
  with p show "base_kept (fst s0) (fst (fst (truck_step cm s0)))"
    by (rule pre_trans[OF base_kept_pre])
qed

subsection \<open>Keys of a dictionary\<close>

lemma dict_keys_set:
  "dict_keys (dict_set d k v) = (if k \<in> set (dict_keys d) then dict_keys d else dict_keys d @ [k])"
  by (induction d) (force simp: dict_keys_def)+

lemma dict_has_set [simp]: "dict_has (dict_set d k v) k' = (k' = k \<or> dict_has d k')"
  by (auto simp: dict_has_def dict_keys_set)

lemma dict_has_del [simp]: "dict_has (dict_del d k) k' = (k' \<noteq> k \<and> dict_has d k')"
  by (auto simp: dict_has_def dict_keys_def dict_del_def)

subsection \<open>The warehouse keeps its identity and a sound truck pool\<close>

lemma wkept_pre [simp]: "preorder_on_agents wkept"
  by (auto simp: preorder_on_agents_def wkept_def base_kept_def)

lemma keeps_handle_store_order: "keeps wkept (handle_store_order m)"
  by (auto simp: keeps_def handle_store_order_def Let_def done_ok_def wkept_def base_kept_def
      pool_ok_def split: sum.splits)

lemma dispatch_truck_kept:
  "wkept (fst s) (fst (fst (fst (dispatch_truck_for_order ord s))))"
proof (cases "available_trucks (fst s)")
  case Nil
  then show ?thesis by (simp add: dispatch_truck_for_order_def pre_refl)
next
  case (Cons t rest)
  then show ?thesis
    by (auto simp: dispatch_truck_for_order_def Let_def send_message_def wkept_def
        base_kept_def pool_ok_def split: sum.splits)
qed

lemma keeps_reject: "keeps wkept (reject_order ord)"
  by (rule keepsI) (simp add: reject_order_def send_message_def pre_refl split: sum.splits)

lemma process_order_kept:
  "wkept (fst (fst acc)) (fst (fst (fst (process_order oid ord acc))))"
proof (cases "can_fulfill_order (fst (fst acc)) ord")
  case False
  have "wkept (fst (fst acc)) (fst (fst (reject_order ord (fst acc))))"
    using keeps_reject by (rule keepsD)
  then show ?thesis using False
    by (auto simp: process_order_def Let_def done_ok_def wkept_def base_kept_def pool_ok_def
        split: prod.splits option.splits)
next
  case True
  have d: "wkept (fst (fst acc)) (fst (fst (fst (dispatch_truck_for_order ord (fst acc)))))"
    by (rule dispatch_truck_kept)
  then show ?thesis using True
    by (auto simp: process_order_def Let_def done_ok_def wkept_def base_kept_def pool_ok_def
        update_status_def valid_statuses_def
        split: prod.splits option.splits bool.splits sum.splits)
qed

lemma process_orders_loop_kept:
  "wkept a (fst (fst acc)) \<Longrightarrow> wkept a (fst (fst (fst (process_orders_loop items acc))))"
proof (induction items arbitrary: acc)
  case Nil
  then show ?case by (simp add: done_ok_def)
next
  case (Cons x items)
  obtain oid ord where x: "x = (oid, ord)" by (cases x)
  have 1: "wkept a (fst (fst (fst (process_order oid ord acc))))"
    using Cons.prems process_order_kept[of acc oid ord] by (rule pre_trans[OF wkept_pre])
  show ?case
  proof (cases "snd (process_order oid ord acc)")
    case None
    then show ?thesis using Cons.IH[OF 1] x
      by (cases "process_order oid ord acc") (simp add: andthen_def)
  next
    case (Some e)
    then show ?thesis using 1 x
      by (cases "process_order oid ord acc") (simp add: andthen_def)
  qed
qed

lemma keeps_process_pending: "keeps wkept process_pending_orders"
proof (rule keepsI)
  fix s :: warehouse_state
  have "wkept (fst s) (fst (fst (fst (process_orders_loop (pending_store_orders (fst s)) (s, [])))))"
    by (rule process_orders_loop_kept) (simp add: pre_refl)
  then show "wkept (fst s) (fst (fst (process_pending_orders s)))"
    by (auto simp: process_pending_orders_def done_ok_def wkept_def base_kept_def pool_ok_def
        split: prod.splits option.splits)
qed

lemma wkept_other_fields:
  "wkept a w \<Longrightarrow> available_trucks w' = available_trucks w \<Longrightarrow>
   assigned_trucks w' = assigned_trucks w \<Longrightarrow> agent_id w' = agent_id w \<Longrightarrow>
   active w' = active w \<Longrightarrow> wkept a w'"
  by (simp add: wkept_def base_kept_def pool_ok_def)

lemma keeps_handle_delivery_complete: "keeps wkept (handle_delivery_complete m)"
proof (rule keepsI)
  fix s :: warehouse_state
  define w where "w = (if dict_has (assigned_trucks (fst s)) (sender m)
               then (fst s)\<lparr> assigned_trucks := dict_del (assigned_trucks (fst s)) (sender m),
                        available_trucks := available_trucks (fst s) @ [sender m] \<rparr>
               else fst s)"
  have w: "wkept (fst s) w"
    by (auto simp: w_def wkept_def base_kept_def pool_ok_def)
  have g: "\<And>oid. keeps wkept (\<lambda>s1. done_ok ((fst s1)\<lparr> processing_orders :=
                                    dict_del (processing_orders (fst s1)) oid \<rparr>, snd s1))"
    by (rule keepsI) (simp add: done_ok_def wkept_def base_kept_def pool_ok_def)
  have unf: "handle_delivery_complete m s =
     (case key_order_id (data m) of
           None \<Rightarrow> done_ok (w, snd s)
         | Some oid \<Rightarrow>
             (case dict_get (processing_orders w) oid of
                None \<Rightarrow> done_ok (w, snd s)
              | Some ord \<Rightarrow>
                  (case update_status ord ''delivered'' of
                     Inl e \<Rightarrow> ((w, snd s), Some e)
                   | Inr ord' \<Rightarrow>
                       andthen (send_message (requester ord') ''DELIVERY_NOTIFICATION''
                                  (empty_payload\<lparr> key_order_id := Some oid,
                                      key_product_id := Some (product_id ord'),
                                      key_quantity := Some (quantity ord') \<rparr>)
                                  (w\<lparr>processing_orders := dict_set (processing_orders w) oid ord'\<rparr>, snd s))
                         (\<lambda>s1. done_ok ((fst s1)\<lparr> processing_orders :=
                                    dict_del (processing_orders (fst s1)) oid \<rparr>, snd s1)))))"
    unfolding handle_delivery_complete_def Let_def w_def ..
  show "wkept (fst s) (fst (fst (handle_delivery_complete m s)))"
  proof (cases "key_order_id (data m)")
    case None
    then show ?thesis using w by (simp add: unf done_ok_def)
  next
    case (Some oid)
    note oid = this
    show ?thesis
    proof (cases "dict_get (processing_orders w) oid")
      case None
      then show ?thesis using w oid by (simp add: unf done_ok_def)
    next
      case (Some ord)
      note ord = this
      show ?thesis
      proof (cases "update_status ord ''delivered''")
        case (Inl e)
        then show ?thesis using w oid ord by (simp add: unf)
      next
        case (Inr ord')
        have "wkept (fst s) (w\<lparr>processing_orders := dict_set (processing_orders w) oid ord'\<rparr>)"
          using w by (rule wkept_other_fields) simp_all
        then show ?thesis
          using oid ord Inr by (simp add: unf kept_send_andthen[OF wkept_pre _ g])
      qed
    qed
  qed
qed

lemma keeps_place_factory_order: "keeps wkept (place_factory_order now pid q)"
proof (rule keepsI)
  fix s :: warehouse_state
  let ?oid = "agent_id (fst s) @ ''_factory_order_'' @ str_of_nat now"
  show "wkept (fst s) (fst (fst (place_factory_order now pid q s)))"
  proof (cases "Order (Some ?oid) pid q (Some (agent_id (fst s)))")
    case (Inl e)
    then show ?thesis by (simp add: place_factory_order_def Let_def pre_refl)
  next
    case (Inr ord)
    have "wkept (fst s) ((fst s)\<lparr> pending_factory_orders :=
                    dict_set (pending_factory_orders (fst s)) ?oid ord \<rparr>)"
      by (rule wkept_other_fields[OF pre_refl[OF wkept_pre]]) simp_all
    then show ?thesis using Inr
      by (simp add: place_factory_order_def Let_def kept_send)
  qed
qed

lemma reorder_loop_kept:
  "wkept a (fst s) \<Longrightarrow> wkept a (fst (fst (reorder_loop clock items s)))"
proof (induction items arbitrary: s)
  case Nil
  then show ?case by (simp add: done_ok_def)
next
  case (Cons x items)
  obtain pid q where x: "x = (pid, q)" by (cases x)
  let ?r = "place_factory_order (clock pid) pid (reorder_quantity (fst s)) s"
  have 1: "wkept a (fst (fst ?r))"
    using keeps_after[OF wkept_pre keeps_place_factory_order Cons.prems] .
  have 2: "wkept a (fst (fst (andthen ?r (reorder_loop clock items))))"
  proof (cases "snd ?r")
    case None
    then show ?thesis using Cons.IH[OF 1] by (cases ?r) (simp add: andthen_def)
  next
    case (Some e)
    then show ?thesis using 1 by (cases ?r) (simp add: andthen_def)
  qed
  show ?case using 2 Cons.IH[OF Cons.prems] x by simp
qed

lemma keeps_check_and_reorder: "keeps wkept (check_and_reorder_from_factory clock)"
  by (rule keepsI) (simp add: check_and_reorder_from_factory_def reorder_loop_kept pre_refl)

lemma keeps_handle_production_complete: "keeps wkept (handle_production_complete m)"
  by (rule keepsI)
    (auto simp: handle_production_complete_def Let_def done_ok_def wkept_def base_kept_def
      pool_ok_def split: option.splits sum.splits)

lemma keeps_handle_truck_available: "keeps wkept (handle_truck_available m)"
  by (rule keepsI)
    (auto simp: handle_truck_available_def Let_def done_ok_def wkept_def base_kept_def pool_ok_def)

lemma keeps_warehouse_handle: "keeps wkept (warehouse_handle_message m)"
  using keepsD[OF keeps_handle_store_order] keepsD[OF keeps_handle_delivery_complete]
    keepsD[OF keeps_handle_production_complete] keepsD[OF keeps_handle_truck_available]
  by (auto simp: warehouse_handle_message_def done_ok_def pre_refl intro!: keepsI)

lemma keeps_warehouse_step: "keeps wkept (warehouse_step clock)"
proof (rule keepsI)
  fix s0 :: warehouse_state
  have "wkept (fst s0) (fst (process_messages warehouse_handle_message s0))"
    by (rule process_messages_kept[OF wkept_pre keeps_warehouse_handle])
  then have "wkept (fst s0)
      (fst (fst (check_and_reorder_from_factory clock (process_messages warehouse_handle_message s0))))"
    by (rule keeps_after[OF wkept_pre keeps_check_and_reorder])
  then show "wkept (fst s0) (fst (fst (warehouse_step clock s0)))"
    unfolding warehouse_step_def
    by (rule kept_andthen[OF wkept_pre _ keeps_process_pending])
qed

subsection \<open>The factory keeps its identity and its active flag\<close>

lemma keeps_notify: "keeps base_kept (notify_production_complete ord)"
  by (rule keepsI) (simp add: notify_production_complete_def send_message_def split: sum.splits)

lemma keeps_fulfill: "keeps base_kept (fulfill_from_inventory ord)"
  by (rule keepsI)
    (simp add: fulfill_from_inventory_def notify_production_complete_def send_message_def
      base_kept_def split: sum.splits)

lemma keeps_handle_factory_order: "keeps base_kept (handle_factory_order m)"
  using keepsD[OF keeps_fulfill]
  by (auto simp: handle_factory_order_def Let_def done_ok_def base_kept_def
      split: sum.splits intro!: keepsI)

lemma complete_loop_kept:
  "base_kept a (fst s) \<Longrightarrow> base_kept a (fst (fst (complete_loop oids s)))"
proof (induction oids arbitrary: s)
  case Nil
  then show ?case by (simp add: done_ok_def)
next
  case (Cons oid rest)
  show ?case
  proof (cases "dict_get (active_production (fst s)) oid")
    case None
    then show ?thesis using Cons.prems by simp
  next
    case (Some info)
    let ?f1 = "(fst s)\<lparr> finished_goods_inventory :=
                        dict_set (finished_goods_inventory (fst s)) (product_id (job_order info))
                          (goods_get (finished_goods_inventory (fst s)) (product_id (job_order info))
                             + quantity (job_order info)) \<rparr>"
    let ?r = "notify_production_complete (job_order info) (?f1, snd s)"
    have 1: "base_kept a (fst (fst ?r))"
      using Cons.prems
      by (simp add: notify_production_complete_def send_message_def base_kept_def split: sum.splits)
    show ?thesis
    proof (cases "snd ?r")
      case None
      have "base_kept a (fst ((fst (fst ?r))\<lparr> active_production := dict_del (active_production (fst (fst ?r))) oid,
                             orders_completed := orders_completed (fst (fst ?r)) + 1,
                             total_production_time := total_production_time (fst (fst ?r))
                                + (completion_time info - start_time info) \<rparr>, snd (fst ?r)))"
        using 1 by (simp add: base_kept_def)
      from Cons.IH[OF this] None Some show ?thesis
        by (cases ?r) (simp add: andthen_def Let_def)
    next
      case (Some e)
      then show ?thesis using 1 \<open>dict_get (active_production (fst s)) oid = Some info\<close>
        by (cases ?r) (simp add: andthen_def Let_def)
    qed
  qed
qed

lemma keeps_check_completion: "keeps base_kept check_production_completion"
  by (rule keepsI) (simp add: check_production_completion_def complete_loop_kept)

lemma start_new_production_kept: "base_kept f (start_new_production f)"
  by (simp add: start_new_production_def Let_def base_kept_def split: prod.splits)

lemma keeps_factory_handle: "keeps base_kept (factory_handle_message m)"
  using keepsD[OF keeps_handle_factory_order]
  by (auto simp: factory_handle_message_def done_ok_def intro!: keepsI)

lemma keeps_factory_step: "keeps base_kept factory_step"
proof (rule keepsI)
  fix s0 :: factory_state
  let ?s = "process_messages factory_handle_message
                ((fst s0)\<lparr>current_time_step := current_time_step (fst s0) + 1\<rparr>, snd s0)"
  have "base_kept ((fst s0)\<lparr>current_time_step := current_time_step (fst s0) + 1\<rparr>) (fst ?s)"
    using process_messages_kept[OF base_kept_pre keeps_factory_handle,
        of "((fst s0)\<lparr>current_time_step := current_time_step (fst s0) + 1\<rparr>, snd s0)"]
    by simp
  then have "base_kept (fst s0) (fst ?s)" by (simp add: base_kept_def)
  then have "base_kept (fst s0) (fst (fst (check_production_completion ?s)))"
    by (rule keeps_after[OF base_kept_pre keeps_check_completion])
  moreover have "keeps base_kept (\<lambda>s1. done_ok (start_new_production (fst s1), snd s1))"
    by (rule keepsI) (simp add: done_ok_def start_new_production_kept)
  ultimately show "base_kept (fst s0) (fst (fst (factory_step s0)))"
    unfolding factory_step_def Let_def
    by (rule kept_andthen[OF base_kept_pre])
qed

section \<open>The scheduler\<close>

lemma with_role_base [simp]:
  "agent_id (with_role a r) = agent_id a" "active (with_role a r) = active a"
  "location (with_role a r) = location a" "base_agent.more (with_role a r) = r"
  by (simp_all add: with_role_def)

lemma on_truck_fst:
  "fst (fst (on_truck f x s)) = Truck (fst (fst (f (with_role (fst s) x, snd s))))"
  by (simp add: on_truck_def split_def)

lemma on_warehouse_fst:
  "fst (fst (on_warehouse f x s)) = Warehouse (fst (fst (f (with_role (fst s) x, snd s))))"
  by (simp add: on_warehouse_def split_def)

lemma on_factory_fst:
  "fst (fst (on_factory f x s)) = Factory (fst (fst (f (with_role (fst s) x, snd s))))"
  by (simp add: on_factory_def split_def)

lemma on_truck_active:
  "keeps base_kept f \<Longrightarrow> active (fst (fst (on_truck f x s))) = active (fst s) \<and>
     agent_id (fst (fst (on_truck f x s))) = agent_id (fst s)"
  using keepsD[of base_kept f "(with_role (fst s) x, snd s)"]
  by (simp add: on_truck_fst Truck_def base_kept_def)

lemma on_warehouse_active:
  "keeps wkept f \<Longrightarrow> active (fst (fst (on_warehouse f x s))) = active (fst s) \<and>
     agent_id (fst (fst (on_warehouse f x s))) = agent_id (fst s)"
  using keepsD[of wkept f "(with_role (fst s) x, snd s)"]
  by (simp add: on_warehouse_fst Warehouse_def wkept_def base_kept_def)

lemma on_factory_active:
  "keeps base_kept f \<Longrightarrow> active (fst (fst (on_factory f x s))) = active (fst s) \<and>
     agent_id (fst (fst (on_factory f x s))) = agent_id (fst s)"
  using keepsD[of base_kept f "(with_role (fst s) x, snd s)"]
  by (simp add: on_factory_fst Factory_def base_kept_def)

lemma agent_step_base:
  "active (fst (fst (agent_step cm clock s))) = active (fst s) \<and>
   agent_id (fst (fst (agent_step cm clock s))) = agent_id (fst s)"
  by (simp add: agent_step_def on_truck_active[OF keeps_truck_step]
      on_warehouse_active[OF keeps_warehouse_step] on_factory_active[OF keeps_factory_step]
      split: role.splits)

lemma advance_phase_inactive:
  "\<not> active a \<Longrightarrow> advance_phase stp (a # as) b =
     (a # fst (advance_phase stp as b), snd (advance_phase stp as b))"
  by (simp add: is_active_def split_def Let_def)

lemma advance_phase_ok:
  "active a \<Longrightarrow> stp (a, b) = ((a', b'), None) \<Longrightarrow>
   advance_phase stp (a # as) b =
     (a' # fst (advance_phase stp as b'), fst (snd (advance_phase stp as b')),
      snd (snd (advance_phase stp as b')) + 1)"
  by (simp add: is_active_def split_def Let_def)

lemma advance_phase_fault:
  "active a \<Longrightarrow> stp (a, b) = ((a', b'), Some e) \<Longrightarrow>
   advance_phase stp (a # as) b =
     (a'\<lparr>active := False\<rparr> # fst (advance_phase stp as (unsubscribe (agent_id a') b')),
      snd (advance_phase stp as (unsubscribe (agent_id a') b')))"
  by (simp add: is_active_def split_def deactivate_def Let_def)

lemma advance_phase_cases:
  obtains (inactive) "\<not> active a"
      "advance_phase stp (a # as) b = (a # fst (advance_phase stp as b), snd (advance_phase stp as b))"
  | (ok) a' b' where "active a" "stp (a, b) = ((a', b'), None)"
      "advance_phase stp (a # as) b =
         (a' # fst (advance_phase stp as b'), fst (snd (advance_phase stp as b')),
          snd (snd (advance_phase stp as b')) + 1)"
  | (fault) a' b' e where "active a" "stp (a, b) = ((a', b'), Some e)"
      "advance_phase stp (a # as) b =
         (a'\<lparr>active := False\<rparr> # fst (advance_phase stp as (unsubscribe (agent_id a') b')),
          snd (advance_phase stp as (unsubscribe (agent_id a') b')))"
proof (cases "active a")
  case False
  show ?thesis by (rule inactive[OF False advance_phase_inactive[where stp=stp, OF False]])
next
  case True
  obtain a' b' e where r: "stp (a, b) = ((a', b'), e)" by (metis surj_pair)
  show ?thesis
  proof (cases e)
    case None
    with r have r': "stp (a, b) = ((a', b'), None)" by simp
    show ?thesis by (rule ok[OF True r' advance_phase_ok[where stp=stp and b=b, OF True r']])
  next
    case (Some ex)
    with r have r': "stp (a, b) = ((a', b'), Some ex)" by simp
    show ?thesis by (rule fault[OF True r' advance_phase_fault[where stp=stp and b=b, OF True r']])
  qed
qed

lemma advance_phase_length: "length (fst (advance_phase stp as b)) = length as"
proof (induction as arbitrary: b)
  case Nil
  show ?case by simp
next
  case (Cons a as)
  show ?case by (cases a stp as b rule: advance_phase_cases) (simp_all add: Cons.IH)
qed

lemma advance_phase_count:
  assumes pres: "\<forall>s. active (fst (fst (stp s))) = active (fst s)"
  shows "snd (snd (advance_phase stp as b)) = length (filter active (fst (advance_phase stp as b)))"
proof (induction as arbitrary: b)
  case Nil
  show ?case by simp
next
  case (Cons a as)
  show ?case
  proof (cases a stp as b rule: advance_phase_cases)
    case inactive
    then show ?thesis by (simp add: Cons.IH)
  next
    case (ok a' b')
    have "active a'" using pres ok(1,2) by (metis fst_conv)
    then show ?thesis using ok by (simp add: Cons.IH)
  next
    case (fault a' b' e)
    then show ?thesis by (simp add: Cons.IH)
  qed
qed

lemma advance_phase_each:
  "i < length as \<Longrightarrow> advanced_as stp (as ! i) (fst (advance_phase stp as b) ! i)"
proof (induction as arbitrary: b i)
  case Nil
  then show ?case by simp
next
  case (Cons a as)
  show ?case
  proof (cases i)
    case 0
    show ?thesis
    proof (cases a stp as b rule: advance_phase_cases)
      case inactive
      then show ?thesis using 0 by (simp add: advanced_as_def)
    next
      case (ok a' b')
      then have "fst (advance_phase stp (a # as) b) ! 0 =
          (if snd (stp (a, b)) = None then fst (fst (stp (a, b)))
           else (fst (fst (stp (a, b))))\<lparr>active := False\<rparr>)" by simp
      then have "\<exists>bi. fst (advance_phase stp (a # as) b) ! 0 =
          (if snd (stp (a, bi)) = None then fst (fst (stp (a, bi)))
           else (fst (fst (stp (a, bi))))\<lparr>active := False\<rparr>)" by (rule exI)
      then show ?thesis using ok(1) 0 by (simp add: advanced_as_def)
    next
      case (fault a' b' e)
      then have "fst (advance_phase stp (a # as) b) ! 0 =
          (if snd (stp (a, b)) = None then fst (fst (stp (a, b)))
           else (fst (fst (stp (a, b))))\<lparr>active := False\<rparr>)" by simp
      then have "\<exists>bi. fst (advance_phase stp (a # as) b) ! 0 =
          (if snd (stp (a, bi)) = None then fst (fst (stp (a, bi)))
           else (fst (fst (stp (a, bi))))\<lparr>active := False\<rparr>)" by (rule exI)
      then show ?thesis using fault(1) 0 by (simp add: advanced_as_def)
    qed
  next
    case (Suc j)
    then have j: "j < length as" using Cons.prems by simp
    show ?thesis
      by (cases a stp as b rule: advance_phase_cases) (simp_all add: Suc Cons.IH[OF j])
  qed
qed

lemma deactivate_all_fst: "fst (deactivate_all as b) = map (\<lambda>a. a\<lparr>active := False\<rparr>) as"
  by (induction as arbitrary: b) (simp_all add: split_def deactivate_def)

lemma deliver_phase_length: "length (fst (deliver_phase hm as b)) = length as"
  by (induction as arbitrary: b) (simp_all add: split_def Let_def)

lemma deliver_phase_each:
  "i < length as \<Longrightarrow> delivered_as hm (as ! i) (fst (deliver_phase hm as b) ! i)"
proof (induction as arbitrary: b i)
  case Nil
  then show ?case by simp
next
  case (Cons a as)
  show ?case
  proof (cases i)
    case 0
    show ?thesis
    proof (cases "active a")
      case True
      have "fst (deliver_phase hm (a # as) b) ! 0 = fst (process_messages hm (a, b))"
        using True by (simp add: is_active_def split_def Let_def)
      then have "\<exists>bi. fst (deliver_phase hm (a # as) b) ! 0 = fst (process_messages hm (a, bi))"
        by (rule exI)
      then show ?thesis using True 0 by (simp add: delivered_as_def)
    next
      case False
      then show ?thesis using 0 by (simp add: delivered_as_def is_active_def split_def Let_def)
    qed
  next
    case (Suc j)
    then have j: "j < length as" using Cons.prems by simp
    show ?thesis using Cons.IH[OF j] by (simp add: Suc split_def Let_def)
  qed
qed

lemma handle_each_active:
  assumes presh: "\<forall>msg s. active (fst (fst (hm msg s))) = active (fst s)"
  shows "active (fst (handle_each hm ms s)) = active (fst s)"
  by (induction ms arbitrary: s) (simp_all add: presh)

lemma process_messages_active:
  assumes presh: "\<forall>msg s. active (fst (fst (hm msg s))) = active (fst s)"
  shows "active (fst (process_messages hm s)) = active (fst s)"
  by (simp add: process_messages_def split_def Let_def handle_each_active[OF presh])

lemma deliver_phase_active:
  assumes presh: "\<forall>msg s. active (fst (fst (hm msg s))) = active (fst s)"
  shows "map active (fst (deliver_phase hm as b)) = map active as"
  by (induction as arbitrary: b)
     (simp_all add: split_def Let_def process_messages_active[OF presh])

lemma inactive_update: "\<not> active a \<Longrightarrow> a\<lparr>active := False\<rparr> = a"
  by simp

lemma step_length: "length (agents (fst (step hm stp m))) = length (agents m)"
  by (simp add: step_def split_def Let_def stop_simulation_def deactivate_all_fst
      advance_phase_length deliver_phase_length)

lemma step_inactive:
  assumes i: "i < length (agents m)" and off: "\<not> active (agents m ! i)"
  shows "agents (fst (step hm stp m)) ! i = agents m ! i"
proof -
  define d where "d = deliver_phase hm (agents m) (bus m)"
  define r where "r = advance_phase stp (fst d) (snd d)"
  have ld: "length (fst d) = length (agents m)" unfolding d_def by (rule deliver_phase_length)
  have lr: "length (fst r) = length (agents m)" unfolding r_def ld[symmetric] by (rule advance_phase_length)
  have "delivered_as hm (agents m ! i) (fst d ! i)" unfolding d_def using i by (rule deliver_phase_each)
  then have di: "fst d ! i = agents m ! i" using off by (simp add: delivered_as_def)
  have "advanced_as stp (fst d ! i) (fst r ! i)"
    unfolding r_def using i ld by (simp add: advance_phase_each)
  then have ri: "fst r ! i = agents m ! i" using off di by (simp add: advanced_as_def)
  have "agents (fst (step hm stp m)) = agents m \<or> agents (fst (step hm stp m)) = fst r \<or>
        agents (fst (step hm stp m)) = map (\<lambda>a. a\<lparr>active := False\<rparr>) (fst r)"
    by (simp add: step_def split_def Let_def stop_simulation_def deactivate_all_fst
        r_def d_def)
  then show ?thesis using ri i lr off by auto
qed

lemma steps_loop_inactive:
  "i < length (agents m) \<Longrightarrow> \<not> active (agents m ! i) \<Longrightarrow>
   agents (steps_loop hm stp n m) ! i = agents m ! i"
proof (induction n arbitrary: m)
  case 0
  show ?case by simp
next
  case (Suc n)
  have l: "i < length (agents (fst (step hm stp m)))" using Suc.prems(1) by (simp add: step_length)
  have e: "agents (fst (step hm stp m)) ! i = agents m ! i"
    using Suc.prems by (rule step_inactive)
  have "agents (steps_loop hm stp n (fst (step hm stp m))) ! i = agents (fst (step hm stp m)) ! i"
    using l Suc.prems(2) e by (intro Suc.IH) simp_all
  then show ?case using e by (simp add: split_def Let_def)
qed

lemma agent_handle_base:
  "active (fst (fst (agent_handle_message cm msg s))) = active (fst s) \<and>
   agent_id (fst (fst (agent_handle_message cm msg s))) = agent_id (fst s)"
  by (simp add: agent_handle_message_def on_truck_active[OF keeps_truck_handle]
      on_warehouse_active[OF keeps_warehouse_handle] on_factory_active[OF keeps_factory_handle]
      split: role.splits)


text \<open>
  Claim C5.  In a tick of a running scheduler whose roles leave the active flag alone
  (as the handlers and steps of all roles of the repository do): the roster keeps its
  length through both loops; the first loop delivers the mail of every active agent and
  of no other; in the second loop every agent that was active at the start of the tick
  is stepped once, whatever happened to the agents before it, and it is marked inactive
  exactly when its step raised; the counter \<open>active_agents\<close> is the number of agents
  still active; the scheduler stays running, and \<open>step\<close> returns true, exactly when an
  active agent remains, and otherwise it stops and leaves every agent inactive.  An agent
  that is inactive is left as it is by the whole tick, and an agent that is inactive
  after the tick (one deactivated by a fault among them) is left as it is by any number
  of further ticks.
\<close>

theorem fault_isolation:
  assumes "is_running m" and "\<not> is_paused m"
    and presh: "\<forall>msg s. active (fst (fst (hm msg s))) = active (fst s)"
    and pres: "\<forall>s. active (fst (fst (stp s))) = active (fst s)"
  shows "(let d = deliver_phase hm (agents m) (bus m);
              r = advance_phase stp (fst d) (snd d);
              m' = fst (step hm stp m)
          in length (fst d) = length (agents m) \<and>
             (\<forall>i < length (agents m). delivered_as hm (agents m ! i) (fst d ! i) \<and>
                                       active (fst d ! i) = active (agents m ! i)) \<and>
             length (fst r) = length (fst d) \<and>
             (\<forall>i < length (fst d). advanced_as stp (fst d ! i) (fst r ! i)) \<and>
             snd (snd r) = length (filter active (fst r)) \<and>
             is_running m' = (\<exists>a \<in> set (fst r). active a) \<and>
             snd (step hm stp m) = (\<exists>a \<in> set (fst r). active a) \<and>
             current_step m' = current_step m + 1 \<and>
             agents m' = (if \<exists>a \<in> set (fst r). active a then fst r
                          else map (\<lambda>a. a\<lparr>active := False\<rparr>) (fst r)) \<and>
             (\<forall>i < length (agents m). \<not> active (agents m ! i) \<longrightarrow> agents m' ! i = agents m ! i) \<and>
             (\<forall>n. \<forall>i < length (agents m'). \<not> active (agents m' ! i) \<longrightarrow>
                    agents (steps_loop hm stp n m') ! i = agents m' ! i))"
proof -
  define d where "d = deliver_phase hm (agents m) (bus m)"
  define r where "r = advance_phase stp (fst d) (snd d)"
  define m1 where "m1 = m\<lparr>agents := fst r, bus := fst (snd r), current_step := current_step m + 1\<rparr>"
  define m2 where "m2 = fst (step hm stp m)"
  have n: "snd (snd r) = length (filter active (fst r))"
    unfolding r_def using pres by (rule advance_phase_count)
  have ex: "(snd (snd r) = 0) = (\<not> (\<exists>a \<in> set (fst r). active a))"
    unfolding n by (simp add: filter_empty_conv)
  have st: "step hm stp m = (if snd (snd r) = 0 then (stop_simulation m1, False) else (m1, True))"
    using assms(1,2) by (simp add: step_def split_def Let_def m1_def r_def d_def)
  have m1: "is_running m1" "current_step m1 = current_step m + 1" "agents m1 = fst r"
    using assms(1) by (simp_all add: m1_def)
  have stop: "\<not> is_running (stop_simulation m1)"
    "current_step (stop_simulation m1) = current_step m1"
    "agents (stop_simulation m1) = map (\<lambda>a. a\<lparr>active := False\<rparr>) (agents m1)"
    by (simp_all add: stop_simulation_def split_def deactivate_all_fst)
  have 0: "length (fst d) = length (agents m)"
    unfolding d_def by (rule deliver_phase_length)
  have "map active (fst d) = map active (agents m)"
    unfolding d_def using presh by (rule deliver_phase_active)
  then have "\<forall>i < length (agents m). active (fst d ! i) = active (agents m ! i)"
    using 0 by (metis nth_map)
  then have 00: "\<forall>i < length (agents m). delivered_as hm (agents m ! i) (fst d ! i) \<and>
                                       active (fst d ! i) = active (agents m ! i)"
    unfolding d_def by (simp add: deliver_phase_each)
  have 1: "length (fst r) = length (fst d)"
    unfolding r_def by (rule advance_phase_length)
  have 2: "\<forall>i < length (fst d). advanced_as stp (fst d ! i) (fst r ! i)"
    unfolding r_def by (simp add: advance_phase_each)
  have rest: "is_running m2 = (\<exists>a \<in> set (fst r). active a) \<and>
             snd (step hm stp m) = (\<exists>a \<in> set (fst r). active a) \<and>
             current_step m2 = current_step m + 1 \<and>
             agents m2 = (if \<exists>a \<in> set (fst r). active a then fst r
                          else map (\<lambda>a. a\<lparr>active := False\<rparr>) (fst r))"
  proof (cases "\<exists>a \<in> set (fst r). active a")
    case True
    then have nz: "snd (snd r) \<noteq> 0" using ex by blast
    have eq: "step hm stp m = (m1, True)" unfolding st using nz by (rule if_not_P)
    show ?thesis using True m1 by (simp add: eq m2_def)
  next
    case False
    then have z: "snd (snd r) = 0" using ex by blast
    have eq: "step hm stp m = (stop_simulation m1, False)" unfolding st using z by (rule if_P)
    show ?thesis using False stop m1 by (simp add: eq m2_def)
  qed
  have 3: "\<forall>i < length (agents m). \<not> active (agents m ! i) \<longrightarrow> agents m2 ! i = agents m ! i"
    unfolding m2_def by (simp add: step_inactive)
  have 4: "\<forall>n. \<forall>i < length (agents m2). \<not> active (agents m2 ! i) \<longrightarrow>
                    agents (steps_loop hm stp n m2) ! i = agents m2 ! i"
    by (simp add: steps_loop_inactive)
  show ?thesis
    unfolding Let_def d_def[symmetric] r_def[symmetric] m2_def[symmetric]
    using 0 00 1 2 n rest 3 4 by blast
qed

theorem fault_isolation_witness:
  "map active (agents (fst (step (agent_handle_message town) (agent_step town noon) faulty_roster)))
     = [False, True] \<and>
   is_running (fst (step (agent_handle_message town) (agent_step town noon) faulty_roster)) \<and>
   snd (step (agent_handle_message town) (agent_step town noon) faulty_roster) \<and>
   current_step (fst (step (agent_handle_message town) (agent_step town noon) faulty_roster)) = 1 \<and>
   agents (steps_loop (agent_handle_message town) (agent_step town noon) 3
            (fst (step (agent_handle_message town) (agent_step town noon) faulty_roster))) ! 0
     = agents (fst (step (agent_handle_message town) (agent_step town noon) faulty_roster)) ! 0 \<and>
   map active (agents (fst (step (agent_handle_message town) (agent_step town noon) lone_faulty_roster)))
     = [False] \<and>
   \<not> is_running (fst (step (agent_handle_message town) (agent_step town noon) lone_faulty_roster)) \<and>
   \<not> snd (step (agent_handle_message town) (agent_step town noon) lone_faulty_roster) \<and>
   agents (fst (step (agent_handle_message town) (agent_step town noon) parked_roster)) ! 0
     = Truck parked_truck"
proof -
  let ?H = "agent_handle_message town" and ?S = "agent_step town noon"
  have pres: "\<forall>s. active (fst (fst (?S s))) = active (fst s)"
    by (simp add: agent_step_base)
  have presh: "\<forall>msg s. active (fst (fst (?H msg s))) = active (fst s)"
    by (simp add: agent_handle_base)
  define r1 where "r1 = fst (advance_phase ?S
          (fst (deliver_phase ?H (agents faulty_roster) (bus faulty_roster)))
          (snd (deliver_phase ?H (agents faulty_roster) (bus faulty_roster))))"
  define r2 where "r2 = fst (advance_phase ?S
          (fst (deliver_phase ?H (agents lone_faulty_roster) (bus lone_faulty_roster)))
          (snd (deliver_phase ?H (agents lone_faulty_roster) (bus lone_faulty_roster))))"
  define n1 where "n1 = fst (step ?H ?S faulty_roster)"
  define n3 where "n3 = fst (step ?H ?S parked_roster)"
  have ev1: "map active r1 = [False, True]" unfolding r1_def by code_simp
  have ev2: "map active r2 = [False]" unfolding r2_def by code_simp
  have "True \<in> set (map active r1)" unfolding ev1 by simp
  then have ex1: "\<exists>a \<in> set r1. active a" by auto
  have "True \<notin> set (map active r2)" unfolding ev2 by simp
  then have ex2: "\<not> (\<exists>a \<in> set r2. active a)" by auto
  have run1: "is_running faulty_roster" "\<not> is_paused faulty_roster" "current_step faulty_roster = 0"
    by (simp_all add: faulty_roster_def)
  have run2: "is_running lone_faulty_roster" "\<not> is_paused lone_faulty_roster"
    by (simp_all add: lone_faulty_roster_def)
  have run3: "is_running parked_roster" "\<not> is_paused parked_roster"
    by (simp_all add: parked_roster_def)
  have ag3: "agents parked_roster ! 0 = Truck parked_truck" "0 < length (agents parked_roster)"
    "\<not> active (agents parked_roster ! 0)"
    by (simp_all add: parked_roster_def parked_truck_def Truck_def)
  note T1 = fault_isolation[of faulty_roster ?H ?S, OF run1(1,2) presh pres, unfolded Let_def,
      folded r1_def n1_def]
  note T2 = fault_isolation[of lone_faulty_roster ?H ?S, OF run2 presh pres, unfolded Let_def,
      folded r2_def]
  note T3 = fault_isolation[of parked_roster ?H ?S, OF run3 presh pres, unfolded Let_def,
      folded n3_def]
  have a1: "agents n1 = r1" using T1 ex1 by simp
  have "length (map active r1) = 2" unfolding ev1 by simp
  then have len1: "0 < length (agents n1)" unfolding a1 by simp
  have "map active r1 ! 0 = False" unfolding ev1 by simp
  then have off1: "\<not> active (agents n1 ! 0)" using len1 unfolding a1 by simp
  have later: "\<forall>n. \<forall>i < length (agents n1). \<not> active (agents n1 ! i) \<longrightarrow>
                    agents (steps_loop ?H ?S n n1) ! i = agents n1 ! i"
    using T1 by blast
  have l1: "agents (steps_loop ?H ?S 3 n1) ! 0 = agents n1 ! 0"
    using later len1 off1 by blast
  have "\<forall>i < length (agents parked_roster). \<not> active (agents parked_roster ! i) \<longrightarrow>
           agents n3 ! i = agents parked_roster ! i"
    using T3 by blast
  then have l3: "agents n3 ! 0 = Truck parked_truck" using ag3 by metis
  have "length (map active r2) = 1" unfolding ev2 by simp
  then have len2: "length r2 = 1" by simp
  have ag2: "agents (fst (step ?H ?S lone_faulty_roster)) = map (\<lambda>a. a\<lparr>active := False\<rparr>) r2"
    using T2 ex2 by simp
  have "map active (map (\<lambda>a. a\<lparr>active := False\<rparr>) r2) = replicate (length r2) False"
    by (simp add: comp_def map_replicate_const)
  then have a2: "map active (agents (fst (step ?H ?S lone_faulty_roster))) = [False]"
    unfolding ag2 len2 by simp
  have f1: "is_running n1" "snd (step ?H ?S faulty_roster)" "current_step n1 = 1"
    using T1 ex1 run1(3) by simp_all
  have f2: "\<not> is_running (fst (step ?H ?S lone_faulty_roster))"
    "\<not> snd (step ?H ?S lone_faulty_roster)"
    using T2 ex2 by simp_all
  show ?thesis
    using f1 f2 a1 a2 ev1 l1 l3 unfolding n1_def n3_def by simp
qed


section \<open>The distributor's truck pool\<close>

lemma digit_char_inj: "a < 10 \<Longrightarrow> b < 10 \<Longrightarrow> digit_char a = digit_char b \<Longrightarrow> a = b"
proof -
  assume a: "a < 10" and b: "b < 10" and e: "digit_char a = digit_char b"
  have d: "distinct ''0123456789''" by simp
  have "length ''0123456789'' = 10" by simp
  with a b e d show "a = b"
    unfolding digit_char_def by (metis nth_eq_iff_index_eq)
qed

lemma str_of_nat_nonempty: "str_of_nat n \<noteq> []"
  by (subst str_of_nat.simps) simp

lemma str_of_nat_small: "n < 10 \<Longrightarrow> str_of_nat n = [digit_char n]"
  by (subst str_of_nat.simps) simp

lemma str_of_nat_big:
  "\<not> n < 10 \<Longrightarrow> str_of_nat n = str_of_nat (n div 10) @ [digit_char (n mod 10)]"
  by (subst str_of_nat.simps) simp

lemma str_of_nat_inj: "str_of_nat n = str_of_nat m \<Longrightarrow> n = m"
proof (induction n arbitrary: m rule: str_of_nat.induct)
  case (1 n)
  show ?case
  proof (cases "n < 10")
    case True
    note n = this
    show ?thesis
    proof (cases "m < 10")
      case True
      then show ?thesis using n "1.prems" by (simp add: str_of_nat_small digit_char_inj)
    next
      case False
      then show ?thesis using n "1.prems" str_of_nat_nonempty[of "m div 10"]
        by (simp add: str_of_nat_small str_of_nat_big)
    qed
  next
    case False
    note n = this
    show ?thesis
    proof (cases "m < 10")
      case True
      then show ?thesis using n "1.prems" str_of_nat_nonempty[of "n div 10"]
        by (simp add: str_of_nat_small str_of_nat_big)
    next
      case False
      from "1.prems" n False
      have e: "str_of_nat (n div 10) = str_of_nat (m div 10)"
        and d: "digit_char (n mod 10) = digit_char (m mod 10)"
        by (simp_all add: str_of_nat_big)
      have "n div 10 = m div 10" using "1.IH"[OF n e] .
      moreover have "n mod 10 = m mod 10" using d by (simp add: digit_char_inj)
      ultimately show ?thesis by (metis div_mult_mod_eq)
    qed
  qed
qed

lemma str_of_int_inj_pos: "0 \<le> i \<Longrightarrow> 0 \<le> j \<Longrightarrow> str_of_int i = str_of_int j \<Longrightarrow> i = j"
  using str_of_nat_inj[of "nat i" "nat j"] by (simp add: str_of_int_def)

lemma truck_name_inj: "0 \<le> i \<Longrightarrow> 0 \<le> j \<Longrightarrow> truck_name aid i = truck_name aid j \<Longrightarrow> i = j"
  by (simp add: truck_name_def str_of_int_inj_pos)

lemma distinct_truck_names: "distinct (map (truck_name aid) [1..n])"
proof -
  have "inj_on (truck_name aid) (set [1..n])"
  proof (rule inj_onI)
    fix x y assume "x \<in> set [1..n]" "y \<in> set [1..n]" "truck_name aid x = truck_name aid y"
    then show "x = y" using truck_name_inj[of x y aid] by simp
  qed
  then show ?thesis by (simp add: distinct_map)
qed

lemma new_warehouse_pool_ok: "pool_ok (new_warehouse aid loc ivt thr rq n)"
  by (simp add: pool_ok_def new_warehouse_def distinct_truck_names dict_has_def dict_keys_def)

lemma pool_same_pre: "preorder_on_agents pool_same"
  by (simp add: preorder_on_agents_def pool_same_def)

lemma dict_get_set_same: "dict_get (dict_set d k v) k = Some v"
  by (induction d) (auto simp: dict_get_def)

lemma dispatch_moves_truck:
  assumes "available_trucks (fst s) = t # rest"
  shows "available_trucks (fst (fst (fst (dispatch_truck_for_order ord s)))) = rest \<and>
         dict_get (assigned_trucks (fst (fst (fst (dispatch_truck_for_order ord s))))) t
           = Some (order_id ord)"
  using assms
  by (simp add: dispatch_truck_for_order_def Let_def send_message_def dict_get_set_same
      split: sum.splits)

lemma delivery_complete_pool:
  "pool_same (if dict_has (assigned_trucks (fst s)) (sender m)
               then (fst s)\<lparr> assigned_trucks := dict_del (assigned_trucks (fst s)) (sender m),
                        available_trucks := available_trucks (fst s) @ [sender m] \<rparr>
               else fst s)
     (fst (fst (handle_delivery_complete m s)))"
proof -
  define w where "w = (if dict_has (assigned_trucks (fst s)) (sender m)
               then (fst s)\<lparr> assigned_trucks := dict_del (assigned_trucks (fst s)) (sender m),
                        available_trucks := available_trucks (fst s) @ [sender m] \<rparr>
               else fst s)"
  have g: "\<And>oid. keeps pool_same (\<lambda>s1. done_ok ((fst s1)\<lparr> processing_orders :=
                                    dict_del (processing_orders (fst s1)) oid \<rparr>, snd s1))"
    by (rule keepsI) (simp add: done_ok_def pool_same_def)
  have unf: "handle_delivery_complete m s =
     (case key_order_id (data m) of
           None \<Rightarrow> done_ok (w, snd s)
         | Some oid \<Rightarrow>
             (case dict_get (processing_orders w) oid of
                None \<Rightarrow> done_ok (w, snd s)
              | Some ord \<Rightarrow>
                  (case update_status ord ''delivered'' of
                     Inl e \<Rightarrow> ((w, snd s), Some e)
                   | Inr ord' \<Rightarrow>
                       andthen (send_message (requester ord') ''DELIVERY_NOTIFICATION''
                                  (empty_payload\<lparr> key_order_id := Some oid,
                                      key_product_id := Some (product_id ord'),
                                      key_quantity := Some (quantity ord') \<rparr>)
                                  (w\<lparr>processing_orders := dict_set (processing_orders w) oid ord'\<rparr>, snd s))
                         (\<lambda>s1. done_ok ((fst s1)\<lparr> processing_orders :=
                                    dict_del (processing_orders (fst s1)) oid \<rparr>, snd s1)))))"
    unfolding handle_delivery_complete_def Let_def w_def ..
  have "pool_same w (fst (fst (handle_delivery_complete m s)))"
  proof (cases "key_order_id (data m)")
    case None
    then show ?thesis by (simp add: unf done_ok_def pool_same_def)
  next
    case (Some oid)
    note oid = this
    show ?thesis
    proof (cases "dict_get (processing_orders w) oid")
      case None
      then show ?thesis using oid by (simp add: unf done_ok_def pool_same_def)
    next
      case (Some ord)
      note ord = this
      show ?thesis
      proof (cases "update_status ord ''delivered''")
        case (Inl e)
        then show ?thesis using oid ord by (simp add: unf pool_same_def)
      next
        case (Inr ord')
        have "pool_same w (w\<lparr>processing_orders := dict_set (processing_orders w) oid ord'\<rparr>)"
          by (simp add: pool_same_def)
        then show ?thesis
          using oid ord Inr by (simp add: unf kept_send_andthen[OF pool_same_pre _ g])
      qed
    qed
  qed
  then show ?thesis unfolding w_def .
qed

lemma truck_available_pool:
  "handle_truck_available m s =
     (((fst s)\<lparr> assigned_trucks :=
          (if dict_has (assigned_trucks (fst s)) (sender m)
           then dict_del (assigned_trucks (fst s)) (sender m) else assigned_trucks (fst s)),
        available_trucks :=
          (if sender m \<in> set (available_trucks (fst s)) then available_trucks (fst s)
           else available_trucks (fst s) @ [sender m]) \<rparr>, snd s), None)"
  by (simp add: handle_truck_available_def Let_def done_ok_def)

text \<open>
  Claim C10.  A freshly built warehouse has a sound pool, and every message handler,
  every drain of the mailbox and every step keeps it sound: no duplicate in the
  available list, no truck both available and assigned.  Dispatching takes the head of
  the available list and enters it in the assigned table.  A \<open>DELIVERY_COMPLETE\<close> or
  \<open>TRUCK_AVAILABLE\<close> from an assigned truck removes it from the table and appends it
  to the available list once.  From a truck that is already available,
  \<open>TRUCK_AVAILABLE\<close> changes nothing at all and \<open>DELIVERY_COMPLETE\<close> leaves the pool
  as it is.
\<close>

theorem truck_pool_invariant:
  assumes "pool_ok (fst s)"
  shows "pool_ok (new_warehouse aid loc ivt thr rq n) \<and>
         pool_ok (fst (fst (warehouse_handle_message m s))) \<and>
         pool_ok (fst (process_messages warehouse_handle_message s)) \<and>
         pool_ok (fst (fst (warehouse_step clock s))) \<and>
         (\<forall>t rest. available_trucks (fst s) = t # rest \<longrightarrow>
            available_trucks (fst (fst (fst (dispatch_truck_for_order ord s)))) = rest \<and>
            dict_get (assigned_trucks (fst (fst (fst (dispatch_truck_for_order ord s))))) t
              = Some (order_id ord)) \<and>
         (dict_has (assigned_trucks (fst s)) (sender m) \<longrightarrow>
            available_trucks (fst (fst (handle_delivery_complete m s)))
              = available_trucks (fst s) @ [sender m] \<and>
            \<not> dict_has (assigned_trucks (fst (fst (handle_delivery_complete m s)))) (sender m) \<and>
            available_trucks (fst (fst (handle_truck_available m s)))
              = available_trucks (fst s) @ [sender m] \<and>
            \<not> dict_has (assigned_trucks (fst (fst (handle_truck_available m s)))) (sender m)) \<and>
         (sender m \<in> set (available_trucks (fst s)) \<longrightarrow>
            handle_truck_available m s = (s, None) \<and>
            available_trucks (fst (fst (handle_delivery_complete m s))) = available_trucks (fst s) \<and>
            assigned_trucks (fst (fst (handle_delivery_complete m s))) = assigned_trucks (fst s))"
proof -
  have 1: "pool_ok (new_warehouse aid loc ivt thr rq n)"
    by (rule new_warehouse_pool_ok)
  have 2: "pool_ok (fst (fst (warehouse_handle_message m s)))"
    using keepsD[OF keeps_warehouse_handle, of s m] assms by (simp add: wkept_def)
  have 3: "pool_ok (fst (process_messages warehouse_handle_message s))"
    using process_messages_kept[OF wkept_pre keeps_warehouse_handle, of s] assms
    by (simp add: wkept_def)
  have 4: "pool_ok (fst (fst (warehouse_step clock s)))"
    using keepsD[OF keeps_warehouse_step, of s clock] assms by (simp add: wkept_def)
  have 5: "\<forall>t rest. available_trucks (fst s) = t # rest \<longrightarrow>
            available_trucks (fst (fst (fst (dispatch_truck_for_order ord s)))) = rest \<and>
            dict_get (assigned_trucks (fst (fst (fst (dispatch_truck_for_order ord s))))) t
              = Some (order_id ord)"
    by (simp add: dispatch_moves_truck)
  have na: "sender m \<in> set (available_trucks (fst s)) \<Longrightarrow>
            \<not> dict_has (assigned_trucks (fst s)) (sender m)"
    using assms by (simp add: pool_ok_def)
  have 6: "dict_has (assigned_trucks (fst s)) (sender m) \<longrightarrow>
            available_trucks (fst (fst (handle_delivery_complete m s)))
              = available_trucks (fst s) @ [sender m] \<and>
            \<not> dict_has (assigned_trucks (fst (fst (handle_delivery_complete m s)))) (sender m) \<and>
            available_trucks (fst (fst (handle_truck_available m s)))
              = available_trucks (fst s) @ [sender m] \<and>
            \<not> dict_has (assigned_trucks (fst (fst (handle_truck_available m s)))) (sender m)"
    using delivery_complete_pool[of s m] na
    by (auto simp: pool_same_def truck_available_pool)
  have 7: "sender m \<in> set (available_trucks (fst s)) \<longrightarrow>
            handle_truck_available m s = (s, None) \<and>
            available_trucks (fst (fst (handle_delivery_complete m s))) = available_trucks (fst s) \<and>
            assigned_trucks (fst (fst (handle_delivery_complete m s))) = assigned_trucks (fst s)"
    using delivery_complete_pool[of s m] na
    by (auto simp: pool_same_def truck_available_pool)
  from 1 2 3 4 5 6 7 show ?thesis by blast
qed

theorem truck_pool_invariant_witness:
  "pool_ok busy_warehouse \<and>
   pool_ok (fst (fst (warehouse_handle_message delivery_complete_msg (busy_warehouse, new_bus)))) \<and>
   pool_ok (fst (fst (warehouse_step noon (busy_warehouse, new_bus)))) \<and>
   available_trucks (fst (fst (handle_delivery_complete delivery_complete_msg (busy_warehouse, new_bus))))
     = [''truck_warehouse_1_2'', ''truck_warehouse_1_3'', ''truck_warehouse_1_1''] \<and>
   \<not> dict_has (assigned_trucks (fst (fst (handle_delivery_complete delivery_complete_msg
           (busy_warehouse, new_bus))))) ''truck_warehouse_1_1'' \<and>
   available_trucks (fst (fst (fst (dispatch_truck_for_order order_o1 (busy_warehouse, new_bus)))))
     = [''truck_warehouse_1_3'']"
proof -
  have ok: "pool_ok (fst (busy_warehouse, new_bus))" by code_simp
  have av: "available_trucks (fst (busy_warehouse, new_bus))
              = ''truck_warehouse_1_2'' # [''truck_warehouse_1_3'']" by code_simp
  have asg: "dict_has (assigned_trucks (fst (busy_warehouse, new_bus))) (sender delivery_complete_msg)"
    by code_simp
  have snd: "sender delivery_complete_msg = ''truck_warehouse_1_1''"
    by (simp add: delivery_complete_msg_def)
  note T = truck_pool_invariant[OF ok, of _ _ _ _ _ _ delivery_complete_msg noon order_o1]
  show ?thesis
    using T ok av asg snd by simp
qed

section \<open>Rejection and waiting are distinct outcomes\<close>

lemma short_of_iff: "short_of w (oid, ord) = (\<not> can_fulfill_order w ord)"
  by (auto simp: short_of_def can_fulfill_order_def)

lemma reject_order_ok:
  "agent_id (fst s) \<noteq> [] \<Longrightarrow> requester ord \<noteq> [] \<Longrightarrow>
   reject_order ord s = ((fst s, publish (rejection_msg (fst s) ord) (snd s)), None)"
  by (simp add: reject_order_def send_message_def Message_def rejection_msg_def)

lemma process_order_short:
  assumes "agent_id (fst s) \<noteq> []" and "requester ord \<noteq> []" and "\<not> can_fulfill_order (fst s) ord"
  shows "process_order oid ord (s, rm) =
     ((((fst s)\<lparr>orders_rejected := orders_rejected (fst s) + 1\<rparr>,
        publish (rejection_msg (fst s) ord) (snd s)), rm @ [oid]), None)"
  using assms by (simp add: process_order_def Let_def reject_order_ok done_ok_def)

lemma process_order_no_truck:
  assumes "can_fulfill_order (fst s) ord" and "available_trucks (fst s) = []"
  shows "process_order oid ord (s, rm) = ((s, rm), None)"
  using assms by (simp add: process_order_def Let_def dispatch_truck_for_order_def done_ok_def)

lemma short_of_rejected [simp]:
  "short_of (w\<lparr>orders_rejected := x\<rparr>) = short_of w"
  "rejection_msg (w\<lparr>orders_rejected := x\<rparr>) = rejection_msg w"
  by (simp_all add: short_of_def can_fulfill_order_def rejection_msg_def fun_eq_iff)

lemma publish_all_append: "publish_all (xs @ ys) b = publish_all ys (publish_all xs b)"
  by (induction xs arbitrary: b) simp_all

lemma loop_without_dispatch:
  assumes "agent_id w \<noteq> []"
    and "\<forall>item \<in> set items. requester (snd item) \<noteq> []"
    and "available_trucks w = [] \<or> (\<forall>item \<in> set items. short_of w item)"
  shows "process_orders_loop items ((w, b), rm) =
     (((w\<lparr>orders_rejected := orders_rejected w + int (length (filter (short_of w) items))\<rparr>,
        publish_all (map (\<lambda>item. rejection_msg w (snd item)) (filter (short_of w) items)) b),
       rm @ map fst (filter (short_of w) items)), None)"
  using assms
proof (induction items arbitrary: w b rm)
  case Nil
  then show ?case by (simp add: done_ok_def)
next
  case (Cons item items)
  obtain oid ord where item: "item = (oid, ord)" by (cases item)
  show ?case
  proof (cases "short_of w item")
    case True
    let ?w1 = "w\<lparr>orders_rejected := orders_rejected w + 1\<rparr>"
    have p: "process_order oid ord ((w, b), rm) =
        (((?w1, publish (rejection_msg w ord) b), rm @ [oid]), None)"
      using process_order_short[of "(w, b)" ord oid rm] Cons.prems True item
      by (simp add: short_of_iff)
    have ih: "process_orders_loop items ((?w1, publish (rejection_msg w ord) b), rm @ [oid]) =
        (((?w1\<lparr>orders_rejected := orders_rejected ?w1 + int (length (filter (short_of ?w1) items))\<rparr>,
        publish_all (map (\<lambda>item. rejection_msg ?w1 (snd item)) (filter (short_of ?w1) items))
           (publish (rejection_msg w ord) b)),
       (rm @ [oid]) @ map fst (filter (short_of ?w1) items)), None)"
      by (rule Cons.IH) (use Cons.prems in auto)
    show ?thesis
      using True item by (simp add: p ih andthen_def)
  next
    case False
    then have av: "available_trucks w = []" using Cons.prems(3) by auto
    have p: "process_order oid ord ((w, b), rm) = (((w, b), rm), None)"
      using process_order_no_truck[of "(w, b)" ord oid rm] False av item
      by (simp add: short_of_iff)
    have ih: "process_orders_loop items ((w, b), rm) =
     (((w\<lparr>orders_rejected := orders_rejected w + int (length (filter (short_of w) items))\<rparr>,
        publish_all (map (\<lambda>item. rejection_msg w (snd item)) (filter (short_of w) items)) b),
       rm @ map fst (filter (short_of w) items)), None)"
      by (rule Cons.IH) (use Cons.prems av in auto)
    show ?thesis
      using False item by (simp add: p ih andthen_def)
  qed
qed

lemma remove_orders_filter: "remove_orders rm d = filter (\<lambda>kv. fst kv \<notin> set rm) d"
  by (induction rm arbitrary: d) (auto simp: dict_del_def intro: filter_cong)

lemma filter_keys_distinct:
  "distinct (map fst d) \<Longrightarrow>
   filter (\<lambda>kv. fst kv \<notin> set (map fst (filter P d))) d = filter (\<lambda>kv. \<not> P kv) d"
proof (rule filter_cong[OF refl])
  fix kv assume d: "distinct (map fst d)" and kv: "kv \<in> set d"
  have "fst kv \<in> set (map fst (filter P d)) \<longleftrightarrow> P kv"
  proof
    assume "fst kv \<in> set (map fst (filter P d))"
    then obtain kv' where kv': "kv' \<in> set d" "P kv'" "fst kv' = fst kv" by auto
    moreover have "inj_on fst (set d)" using d by (simp add: distinct_map)
    ultimately have "kv' = kv" using kv by (auto dest: inj_onD)
    with kv' show "P kv" by simp
  next
    assume "P kv"
    with kv show "fst kv \<in> set (map fst (filter P d))" by auto
  qed
  then show "(fst kv \<notin> set (map fst (filter P d))) = (\<not> P kv)" by simp
qed

text \<open>
  A pass in which no dispatch can happen, in closed form: when no truck is available,
  or every pending order is short of inventory, \<open>_process_pending_orders\<close> sends
  \<open>ORDER_REJECTED\<close> to the requester of each short order in table order and nothing
  else, removes exactly the short orders from the pending table, and leaves the
  inventory and the truck pool as they were.
\<close>

lemma pending_pass_without_dispatch:
  assumes aid: "agent_id w \<noteq> []"
    and req: "\<forall>item \<in> set (pending_store_orders w). requester (snd item) \<noteq> []"
    and keys: "distinct (dict_keys (pending_store_orders w))"
    and nodisp: "available_trucks w = [] \<or>
                 (\<forall>item \<in> set (pending_store_orders w). short_of w item)"
  shows "(let r = process_pending_orders (w, b);
              short = filter (short_of w) (pending_store_orders w)
          in snd r = None \<and>
             snd (fst r) = publish_all (map (\<lambda>item. rejection_msg w (snd item)) short) b \<and>
             pending_store_orders (fst (fst r))
               = filter (\<lambda>item. \<not> short_of w item) (pending_store_orders w) \<and>
             inventory (fst (fst r)) = inventory w \<and>
             available_trucks (fst (fst r)) = available_trucks w \<and>
             assigned_trucks (fst (fst r)) = assigned_trucks w \<and>
             processing_orders (fst (fst r)) = processing_orders w \<and>
             orders_rejected (fst (fst r)) = orders_rejected w + int (length short)) \<and>
         (agent_id (fst s) \<noteq> [] \<and> requester ord \<noteq> [] \<and> short_of (fst s) (oid, ord) \<longrightarrow>
            process_order oid ord (s, rm) =
              ((((fst s)\<lparr>orders_rejected := orders_rejected (fst s) + 1\<rparr>,
                 publish (rejection_msg (fst s) ord) (snd s)), rm @ [oid]), None)) \<and>
         (\<not> short_of (fst s) (oid, ord) \<and> available_trucks (fst s) = [] \<longrightarrow>
            process_order oid ord (s, rm) = ((s, rm), None))"
proof -
  define short where "short = filter (short_of w) (pending_store_orders w)"
  have loop: "process_orders_loop (pending_store_orders w) ((w, b), []) =
     (((w\<lparr>orders_rejected := orders_rejected w + int (length short)\<rparr>,
        publish_all (map (\<lambda>item. rejection_msg w (snd item)) short) b),
       [] @ map fst short), None)"
    unfolding short_def using aid req nodisp by (rule loop_without_dispatch)
  have rem: "remove_orders (map fst short) (pending_store_orders w)
               = filter (\<lambda>item. \<not> short_of w item) (pending_store_orders w)"
    unfolding short_def remove_orders_filter
    by (rule filter_keys_distinct) (use keys in \<open>simp add: dict_keys_def\<close>)
  have r: "process_pending_orders (w, b) =
      ((w\<lparr>orders_rejected := orders_rejected w + int (length short),
          pending_store_orders := filter (\<lambda>item. \<not> short_of w item) (pending_store_orders w)\<rparr>,
        publish_all (map (\<lambda>item. rejection_msg w (snd item)) short) b), None)"
    by (simp add: process_pending_orders_def loop done_ok_def rem)
  have 1: "(let r = process_pending_orders (w, b);
              short = filter (short_of w) (pending_store_orders w)
          in snd r = None \<and>
             snd (fst r) = publish_all (map (\<lambda>item. rejection_msg w (snd item)) short) b \<and>
             pending_store_orders (fst (fst r))
               = filter (\<lambda>item. \<not> short_of w item) (pending_store_orders w) \<and>
             inventory (fst (fst r)) = inventory w \<and>
             available_trucks (fst (fst r)) = available_trucks w \<and>
             assigned_trucks (fst (fst r)) = assigned_trucks w \<and>
             processing_orders (fst (fst r)) = processing_orders w \<and>
             orders_rejected (fst (fst r)) = orders_rejected w + int (length short))"
    unfolding Let_def short_def[symmetric] by (simp add: r)
  have 2: "agent_id (fst s) \<noteq> [] \<and> requester ord \<noteq> [] \<and> short_of (fst s) (oid, ord) \<longrightarrow>
            process_order oid ord (s, rm) =
              ((((fst s)\<lparr>orders_rejected := orders_rejected (fst s) + 1\<rparr>,
                 publish (rejection_msg (fst s) ord) (snd s)), rm @ [oid]), None)"
    by (simp add: short_of_iff process_order_short)
  have 3: "\<not> short_of (fst s) (oid, ord) \<and> available_trucks (fst s) = [] \<longrightarrow>
            process_order oid ord (s, rm) = ((s, rm), None)"
    by (simp add: short_of_iff process_order_no_truck)
  from 1 2 3 show ?thesis by (intro conjI)
qed

lemma dict_get_distinct:
  "distinct (map fst d) \<Longrightarrow> (k, v) \<in> set d \<Longrightarrow> dict_get d k = Some v"
  by (simp add: dict_get_def)

lemma andthen_None:
  "snd (andthen r f) = None \<Longrightarrow> snd r = None \<and> andthen r f = f (fst r)"
  by (cases r) (auto simp: andthen_def split: option.splits)

lemma loop_append:
  "process_orders_loop (xs @ ys) acc =
     andthen (process_orders_loop xs acc) (process_orders_loop ys)"
proof (induction xs arbitrary: acc)
  case Nil
  show ?case by (simp add: done_ok_def andthen_def)
next
  case (Cons x xs)
  obtain oid ord where x: "x = (oid, ord)" by (cases x)
  show ?case
    by (cases "process_order oid ord acc")
       (auto simp: x andthen_def Cons.IH split: option.splits prod.splits)
qed

lemma process_order_rm:
  "snd (fst (process_order oid ord acc)) = snd acc \<or>
   snd (fst (process_order oid ord acc)) = snd acc @ [oid]"
  by (simp add: process_order_def Let_def done_ok_def
      split: prod.splits option.splits bool.splits sum.splits)

lemma loop_rm:
  "\<exists>extra. snd (fst (process_orders_loop items acc)) = snd acc @ extra \<and>
           set extra \<subseteq> fst ` set items"
proof (induction items arbitrary: acc)
  case Nil
  show ?case by (simp add: done_ok_def)
next
  case (Cons x xs)
  obtain oid ord where x: "x = (oid, ord)" by (cases x)
  obtain a e where p: "process_order oid ord acc = (a, e)" by (cases "process_order oid ord acc")
  have a: "snd a = snd acc \<or> snd a = snd acc @ [oid]"
    using process_order_rm[of oid ord acc] by (simp add: p)
  show ?case
  proof (cases e)
    case (Some ex)
    have "snd (fst (process_orders_loop (x # xs) acc)) = snd a"
      by (simp add: x p Some andthen_def)
    then show ?thesis using a x by (auto intro: exI[of _ "[]"] exI[of _ "[oid]"])
  next
    case None
    have l: "process_orders_loop (x # xs) acc = process_orders_loop xs a"
      by (simp add: x p None andthen_def)
    obtain extra where ex: "snd (fst (process_orders_loop xs a)) = snd a @ extra"
      "set extra \<subseteq> fst ` set xs" using Cons.IH[of a] by blast
    from a show ?thesis
    proof
      assume "snd a = snd acc"
      then have "snd (fst (process_orders_loop (x # xs) acc)) = snd acc @ extra" by (simp add: l ex)
      then show ?thesis using ex(2) by (intro exI[of _ extra]) auto
    next
      assume "snd a = snd acc @ [oid]"
      then have "snd (fst (process_orders_loop (x # xs) acc)) = snd acc @ (oid # extra)"
        by (simp add: l ex)
      then show ?thesis using ex(2) x by (intro exI[of _ "oid # extra"]) auto
    qed
  qed
qed

lemma dict_get_set_other: "k' \<noteq> k \<Longrightarrow> dict_get (dict_set d k v) k' = dict_get d k'"
  by (induction d) (auto simp: dict_get_def)

lemma dispatch_pending:
  "pending_store_orders (fst (fst (fst (dispatch_truck_for_order ord s)))) = pending_store_orders (fst s)"
  by (simp add: dispatch_truck_for_order_def send_message_def Let_def
      split: list.splits sum.splits prod.splits option.splits)

lemma process_order_pending:
  "k \<noteq> oid \<Longrightarrow>
   dict_get (pending_store_orders (fst (fst (fst (process_order oid ord acc))))) k =
   dict_get (pending_store_orders (fst (fst acc))) k"
  using dispatch_pending[of ord "fst acc"]
  by (auto simp: process_order_def Let_def done_ok_def reject_order_def send_message_def
      dict_get_set_other
      split: prod.splits option.splits bool.splits sum.splits)

lemma loop_pending:
  "k \<notin> fst ` set items \<Longrightarrow>
   dict_get (pending_store_orders (fst (fst (fst (process_orders_loop items acc))))) k =
   dict_get (pending_store_orders (fst (fst acc))) k"
proof (induction items arbitrary: acc)
  case Nil
  show ?case by (simp add: done_ok_def)
next
  case (Cons x xs)
  obtain oid ord where x: "x = (oid, ord)" by (cases x)
  have k: "k \<noteq> oid" "k \<notin> fst ` set xs" using Cons.prems x by auto
  obtain a e where p: "process_order oid ord acc = (a, e)" by (cases "process_order oid ord acc")
  have a: "dict_get (pending_store_orders (fst (fst a))) k =
           dict_get (pending_store_orders (fst (fst acc))) k"
    using process_order_pending[OF k(1), of ord acc] by (simp add: p)
  show ?case
    using a Cons.IH[OF k(2), of a] by (cases e) (simp_all add: x p andthen_def)
qed

lemma reject_order_sent:
  "snd (reject_order ord s) = None \<Longrightarrow>
   reject_order ord s = ((fst s, publish (rejection_msg (fst s) ord) (snd s)), None)"
  by (auto simp: reject_order_def send_message_def Message_def rejection_msg_def
      split: sum.splits if_splits)

lemma process_order_short_sent:
  assumes "\<not> can_fulfill_order (fst s) ord" and "snd (process_order oid ord (s, rm)) = None"
  shows "process_order oid ord (s, rm) =
     ((((fst s)\<lparr>orders_rejected := orders_rejected (fst s) + 1\<rparr>,
        publish (rejection_msg (fst s) ord) (snd s)), rm @ [oid]), None)"
proof -
  have "snd (reject_order ord s) = None"
    using assms by (auto simp: process_order_def Let_def done_ok_def split: prod.splits option.splits)
  then have "reject_order ord s = ((fst s, publish (rejection_msg (fst s) ord) (snd s)), None)"
    by (rule reject_order_sent)
  then show ?thesis using assms(1) by (simp add: process_order_def Let_def done_ok_def)
qed

lemma dict_get_remove_other:
  "k \<notin> set rm \<Longrightarrow> dict_get (remove_orders rm d) k = dict_get d k"
  unfolding remove_orders_filter dict_get_def by (induction d) auto

lemma dict_has_remove: "k \<in> set rm \<Longrightarrow> \<not> dict_has (remove_orders rm d) k"
  unfolding remove_orders_filter dict_has_def dict_keys_def by auto


lemma pending_pass_None:
  assumes "snd (process_pending_orders s) = None"
  shows "snd (process_orders_loop (pending_store_orders (fst s)) (s, [])) = None \<and>
         pending_store_orders (fst (fst (process_pending_orders s))) =
           remove_orders (snd (fst (process_orders_loop (pending_store_orders (fst s)) (s, []))))
             (pending_store_orders (fst (fst (fst (process_orders_loop (pending_store_orders (fst s)) (s, []))))))"
  using assms
  by (auto simp: process_pending_orders_def done_ok_def split: prod.splits option.splits)

lemma pending_pass_order:
  assumes pend: "pending_store_orders w = pre @ (oid, ord) # post"
    and keys: "distinct (dict_keys (pending_store_orders w))"
    and ok: "snd (process_pending_orders (w, b)) = None"
  shows "(let reached = fst (process_orders_loop pre ((w, b), []));
              w1 = fst (fst reached);
              w' = fst (fst (process_pending_orders (w, b)))
          in (short_of w1 (oid, ord) \<longrightarrow>
                process_order oid ord reached =
                  (((w1\<lparr>orders_rejected := orders_rejected w1 + 1\<rparr>,
                     publish (rejection_msg w1 ord) (snd (fst reached))),
                    snd reached @ [oid]), None) \<and>
                \<not> dict_has (pending_store_orders w') oid) \<and>
             (\<not> short_of w1 (oid, ord) \<and> available_trucks w1 = [] \<longrightarrow>
                process_order oid ord reached = (reached, None) \<and>
                dict_get (pending_store_orders w') oid = Some ord))"
proof -
  define reached where "reached = fst (process_orders_loop pre ((w, b), []))"
  define after where "after = fst (process_order oid ord reached)"
  define final where "final = fst (process_orders_loop post after)"
  define w' where "w' = fst (fst (process_pending_orders (w, b)))"
  have whole: "snd (process_orders_loop (pre @ (oid, ord) # post) ((w, b), [])) = None"
    and rem: "pending_store_orders w' = remove_orders (snd (fst (process_orders_loop
                (pre @ (oid, ord) # post) ((w, b), []))))
             (pending_store_orders (fst (fst (fst (process_orders_loop
                (pre @ (oid, ord) # post) ((w, b), []))))))"
    using pending_pass_None[OF ok] by (simp_all add: pend w'_def)
  have split1: "process_orders_loop (pre @ (oid, ord) # post) ((w, b), []) =
      andthen (process_orders_loop pre ((w, b), [])) (process_orders_loop ((oid, ord) # post))"
    by (rule loop_append)
  have s1: "process_orders_loop (pre @ (oid, ord) # post) ((w, b), []) =
      process_orders_loop ((oid, ord) # post) reached"
    using andthen_None[of "process_orders_loop pre ((w, b), [])" "process_orders_loop ((oid, ord) # post)"]
      whole unfolding split1 reached_def by simp
  have s2: "process_orders_loop ((oid, ord) # post) reached =
      andthen (process_order oid ord reached) (process_orders_loop post)" by simp
  have item_ok: "snd (process_order oid ord reached) = None"
    and s3: "process_orders_loop (pre @ (oid, ord) # post) ((w, b), []) = process_orders_loop post after"
    using andthen_None[of "process_order oid ord reached" "process_orders_loop post"]
      whole unfolding s1 s2 after_def by simp_all
  have fin: "pending_store_orders w' =
               remove_orders (snd final) (pending_store_orders (fst (fst final)))"
    unfolding rem s3 final_def ..
  obtain extra where extra: "snd final = snd after @ extra" "set extra \<subseteq> fst ` set post"
    unfolding final_def using loop_rm[of post after] by blast
  obtain extra0 where extra0: "snd reached = extra0" "set extra0 \<subseteq> fst ` set pre"
    unfolding reached_def using loop_rm[of pre "((w, b), [])"] by auto
  have d: "oid \<notin> fst ` set pre" "oid \<notin> fst ` set post"
    using keys by (auto simp: pend dict_keys_def)
  have reached_eq: "reached = (fst reached, snd reached)" by simp
  have short: "process_order oid ord reached =
                  ((((fst (fst reached))\<lparr>orders_rejected := orders_rejected (fst (fst reached)) + 1\<rparr>,
                     publish (rejection_msg (fst (fst reached)) ord) (snd (fst reached))),
                    snd reached @ [oid]), None) \<and>
                \<not> dict_has (pending_store_orders w') oid"
    if sh: "short_of (fst (fst reached)) (oid, ord)"
  proof -
    have nf: "\<not> can_fulfill_order (fst (fst reached)) ord" using sh by (simp add: short_of_iff)
    have io: "snd (process_order oid ord (fst reached, snd reached)) = None" using item_ok by simp
    have p: "process_order oid ord (fst reached, snd reached) =
                  ((((fst (fst reached))\<lparr>orders_rejected := orders_rejected (fst (fst reached)) + 1\<rparr>,
                     publish (rejection_msg (fst (fst reached)) ord) (snd (fst reached))),
                    snd reached @ [oid]), None)"
      using nf io by (rule process_order_short_sent)
    then have "snd after = snd reached @ [oid]" unfolding after_def by simp
    then have "oid \<in> set (snd final)" using extra(1) by simp
    then have "\<not> dict_has (pending_store_orders w') oid" unfolding fin by (rule dict_has_remove)
    then show ?thesis using p by simp
  qed
  have wait: "process_order oid ord reached = (reached, None) \<and>
                dict_get (pending_store_orders w') oid = Some ord"
    if cov: "\<not> short_of (fst (fst reached)) (oid, ord)" and none: "available_trucks (fst (fst reached)) = []"
  proof -
    have cf: "can_fulfill_order (fst (fst reached)) ord" using cov by (simp add: short_of_iff)
    have "process_order oid ord (fst reached, snd reached) = ((fst reached, snd reached), None)"
      using cf none by (rule process_order_no_truck)
    then have p: "process_order oid ord reached = (reached, None)" by simp
    then have af: "after = reached" unfolding after_def by simp
    have "oid \<notin> set (snd final)" using extra extra0 d af by auto
    then have g: "dict_get (pending_store_orders w') oid =
                  dict_get (pending_store_orders (fst (fst final))) oid"
      unfolding fin by (rule dict_get_remove_other)
    have g1: "dict_get (pending_store_orders (fst (fst final))) oid =
              dict_get (pending_store_orders (fst (fst after))) oid"
      unfolding final_def using d(2) by (rule loop_pending)
    have g2: "dict_get (pending_store_orders (fst (fst reached))) oid =
              dict_get (pending_store_orders w) oid"
      unfolding reached_def using loop_pending[OF d(1), of "((w, b), [])"] by simp
    have "(oid, ord) \<in> set (pending_store_orders w)" by (simp add: pend)
    then have g3: "dict_get (pending_store_orders w) oid = Some ord"
      using keys by (intro dict_get_distinct) (simp_all add: dict_keys_def)
    show ?thesis using p g g1 g2 g3 af by simp
  qed
  show ?thesis
    unfolding Let_def reached_def[symmetric] w'_def[symmetric] using short wait by blast
qed


lemma process_order_ok:
  assumes "agent_id (fst s) \<noteq> []" and "requester ord \<noteq> []"
    and "\<forall>t \<in> set (available_trucks (fst s)). t \<noteq> []"
  shows "snd (process_order oid ord (s, rm)) = None \<and>
         agent_id (fst (fst (fst (process_order oid ord (s, rm))))) = agent_id (fst s) \<and>
         set (available_trucks (fst (fst (fst (process_order oid ord (s, rm))))))
           \<subseteq> set (available_trucks (fst s))"
proof (cases "can_fulfill_order (fst s) ord")
  case False
  then show ?thesis using assms by (simp add: process_order_short)
next
  case True
  show ?thesis
  proof (cases "available_trucks (fst s)")
    case Nil
    then show ?thesis using True by (simp add: process_order_no_truck)
  next
    case (Cons t rest)
    have t: "t \<noteq> []" using assms(3) Cons by simp
    show ?thesis
      using True Cons t assms(1)
      by (auto simp: process_order_def Let_def dispatch_truck_for_order_def send_message_def
          Message_def update_status_def valid_statuses_def done_ok_def)
  qed
qed

lemma loop_ok:
  assumes "agent_id (fst s) \<noteq> []" and "\<forall>item \<in> set items. requester (snd item) \<noteq> []"
    and "\<forall>t \<in> set (available_trucks (fst s)). t \<noteq> []"
  shows "snd (process_orders_loop items (s, rm)) = None"
  using assms
proof (induction items arbitrary: s rm)
  case Nil
  show ?case by (simp add: done_ok_def)
next
  case (Cons x xs)
  obtain oid ord where x: "x = (oid, ord)" by (cases x)
  have r: "requester ord \<noteq> []" using Cons.prems(2) x by simp
  note po = process_order_ok[OF Cons.prems(1) r Cons.prems(3), of oid rm]
  obtain s1 rm1 where p: "process_order oid ord (s, rm) = ((s1, rm1), None)"
    using po by (metis prod.collapse)
  have "snd (process_orders_loop xs (s1, rm1)) = None"
  proof (rule Cons.IH)
    show "agent_id (fst s1) \<noteq> []" using po Cons.prems(1) by (simp add: p)
    show "\<forall>item \<in> set xs. requester (snd item) \<noteq> []" using Cons.prems(2) by simp
    show "\<forall>t \<in> set (available_trucks (fst s1)). t \<noteq> []"
      using po Cons.prems(3) by (auto simp: p)
  qed
  then show ?case by (simp add: x p andthen_def)
qed

lemma pending_pass_ok:
  assumes "agent_id w \<noteq> []"
    and "\<forall>item \<in> set (pending_store_orders w). requester (snd item) \<noteq> []"
    and "\<forall>t \<in> set (available_trucks w). t \<noteq> []"
  shows "snd (process_pending_orders (w, b)) = None"
  using loop_ok[of "(w, b)" "pending_store_orders w" "[]"] assms
  by (auto simp: process_pending_orders_def done_ok_def split: prod.splits option.splits)

text \<open>
  Claim C6.  Take any pass of \<open>_process_pending_orders\<close> of a warehouse with a name,
  whose pending orders have a requester and whose trucks have names, and any order of the
  pending table; \<open>reached\<close> is the state in which the loop comes to that order, after the
  orders before it were rejected, dispatched or left waiting.  The pass raises nothing.
  If the order asks for more than the inventory then holds, processing it sends
  \<open>ORDER_REJECTED\<close> to its requester, counts one more rejected order and changes nothing
  else, neither the inventory nor the available list nor the assigned table, and the
  order is no longer in the pending table when the pass is over, whatever happens to the
  orders after it.  If the inventory covers the order and no truck is available,
  processing it changes nothing and sends nothing, and the order is still in the pending
  table, as it was, when the pass is over.
\<close>

theorem insufficient_stock_rejected:
  assumes aid: "agent_id w \<noteq> []"
    and req: "\<forall>item \<in> set (pending_store_orders w). requester (snd item) \<noteq> []"
    and trucks: "\<forall>t \<in> set (available_trucks w). t \<noteq> []"
    and keys: "distinct (dict_keys (pending_store_orders w))"
    and pend: "pending_store_orders w = pre @ (oid, ord) # post"
  shows "(let reached = fst (process_orders_loop pre ((w, b), []));
              w1 = fst (fst reached);
              w' = fst (fst (process_pending_orders (w, b)))
          in snd (process_pending_orders (w, b)) = None \<and>
             (short_of w1 (oid, ord) \<longrightarrow>
                process_order oid ord reached =
                  (((w1\<lparr>orders_rejected := orders_rejected w1 + 1\<rparr>,
                     publish (rejection_msg w1 ord) (snd (fst reached))),
                    snd reached @ [oid]), None) \<and>
                \<not> dict_has (pending_store_orders w') oid) \<and>
             (\<not> short_of w1 (oid, ord) \<and> available_trucks w1 = [] \<longrightarrow>
                process_order oid ord reached = (reached, None) \<and>
                dict_get (pending_store_orders w') oid = Some ord))"
proof -
  have ok: "snd (process_pending_orders (w, b)) = None"
    using aid req trucks by (rule pending_pass_ok)
  show ?thesis
    using pending_pass_order[OF pend keys ok] ok unfolding Let_def by blast
qed

theorem insufficient_stock_rejected_witness:
  "snd (process_pending_orders (mixed_warehouse, new_bus)) = None \<and>
   process_order ''o2'' big_order ((mixed_warehouse, new_bus), []) =
     (((mixed_warehouse\<lparr>orders_rejected := 1\<rparr>,
        publish (rejection_msg mixed_warehouse big_order) new_bus), [''o2'']), None) \<and>
   \<not> dict_has (pending_store_orders (fst (fst (process_pending_orders (mixed_warehouse, new_bus))))) ''o2'' \<and>
   dict_get (pending_store_orders (fst (fst (process_pending_orders (mixed_warehouse, new_bus))))) ''o3''
     = Some small_order \<and>
   pending_store_orders (fst (fst (process_pending_orders (mixed_warehouse, new_bus))))
     = [(''o3'', small_order)] \<and>
   process_order ''o1'' order_30 ((short_warehouse, new_bus), []) =
     (((short_warehouse\<lparr>orders_rejected := 1\<rparr>,
        publish (rejection_msg short_warehouse order_30) new_bus), [''o1'']), None) \<and>
   \<not> dict_has (pending_store_orders (fst (fst (process_pending_orders (short_warehouse, new_bus))))) ''o1'' \<and>
   inventory (fst (fst (process_pending_orders (short_warehouse, new_bus)))) = [(Some ''p1'', 5)] \<and>
   available_trucks (fst (fst (process_pending_orders (short_warehouse, new_bus))))
     = [''truck_warehouse_1_1''] \<and>
   process_order ''o1'' order_30 ((truckless_warehouse, new_bus), []) =
     (((truckless_warehouse, new_bus), []), None) \<and>
   dict_get (pending_store_orders (fst (fst (process_pending_orders (truckless_warehouse, new_bus))))) ''o1''
     = Some order_30"
proof -
  have h: "agent_id mixed_warehouse \<noteq> []"
    "\<forall>item \<in> set (pending_store_orders mixed_warehouse). requester (snd item) \<noteq> []"
    "\<forall>t \<in> set (available_trucks mixed_warehouse). t \<noteq> []"
    "distinct (dict_keys (pending_store_orders mixed_warehouse))"
    by code_simp+
  have h1: "agent_id short_warehouse \<noteq> []"
    "\<forall>item \<in> set (pending_store_orders short_warehouse). requester (snd item) \<noteq> []"
    "\<forall>t \<in> set (available_trucks short_warehouse). t \<noteq> []"
    "distinct (dict_keys (pending_store_orders short_warehouse))"
    by code_simp+
  have h2: "agent_id truckless_warehouse \<noteq> []"
    "\<forall>item \<in> set (pending_store_orders truckless_warehouse). requester (snd item) \<noteq> []"
    "\<forall>t \<in> set (available_trucks truckless_warehouse). t \<noteq> []"
    "distinct (dict_keys (pending_store_orders truckless_warehouse))"
    by code_simp+
  have p2: "pending_store_orders mixed_warehouse =
              [] @ (''o2'', big_order) # [(''o1'', order_30), (''o3'', small_order)]"
    by (simp add: mixed_warehouse_def)
  have p3: "pending_store_orders mixed_warehouse =
              [(''o2'', big_order), (''o1'', order_30)] @ (''o3'', small_order) # []"
    by (simp add: mixed_warehouse_def)
  have p4: "pending_store_orders short_warehouse = [] @ (''o1'', order_30) # []"
    by (simp add: short_warehouse_def)
  have p5: "pending_store_orders truckless_warehouse = [] @ (''o1'', order_30) # []"
    by (simp add: truckless_warehouse_def)
  define at3 where "at3 = fst (process_orders_loop [(''o2'', big_order), (''o1'', order_30)]
                                  ((mixed_warehouse, new_bus), []))"
  have at0: "fst (process_orders_loop [] ((w, new_bus), [])) = ((w, new_bus), [])" for w
    by (simp add: done_ok_def)
  have e2: "short_of mixed_warehouse (''o2'', big_order)" "orders_rejected mixed_warehouse = 0"
    by code_simp+
  have e3: "\<not> short_of (fst (fst at3)) (''o3'', small_order)" "available_trucks (fst (fst at3)) = []"
    unfolding at3_def by code_simp+
  have e4: "short_of short_warehouse (''o1'', order_30)" "orders_rejected short_warehouse = 0"
    by code_simp+
  have e5: "\<not> short_of truckless_warehouse (''o1'', order_30)"
    "available_trucks truckless_warehouse = []"
    by code_simp+
  have all: "pending_store_orders (fst (fst (process_pending_orders (mixed_warehouse, new_bus))))
     = [(''o3'', small_order)]"
    "inventory (fst (fst (process_pending_orders (short_warehouse, new_bus)))) = [(Some ''p1'', 5)]"
    "available_trucks (fst (fst (process_pending_orders (short_warehouse, new_bus))))
       = [''truck_warehouse_1_1'']"
    by code_simp+
  note T2 = insufficient_stock_rejected[OF h p2, of new_bus, unfolded Let_def at0]
  note T3 = insufficient_stock_rejected[OF h p3, of new_bus, unfolded Let_def, folded at3_def]
  note T4 = insufficient_stock_rejected[OF h1 p4, of new_bus, unfolded Let_def at0]
  note T5 = insufficient_stock_rejected[OF h2 p5, of new_bus, unfolded Let_def at0]
  have m2: "process_order ''o2'' big_order ((mixed_warehouse, new_bus), []) =
     (((mixed_warehouse\<lparr>orders_rejected := 1\<rparr>,
        publish (rejection_msg mixed_warehouse big_order) new_bus), [''o2'']), None)"
    "\<not> dict_has (pending_store_orders (fst (fst (process_pending_orders (mixed_warehouse, new_bus))))) ''o2''"
    "snd (process_pending_orders (mixed_warehouse, new_bus)) = None"
    using T2 e2 by simp_all
  have m3: "dict_get (pending_store_orders (fst (fst (process_pending_orders (mixed_warehouse, new_bus))))) ''o3''
     = Some small_order"
    using T3 e3 by simp
  have m4: "process_order ''o1'' order_30 ((short_warehouse, new_bus), []) =
     (((short_warehouse\<lparr>orders_rejected := 1\<rparr>,
        publish (rejection_msg short_warehouse order_30) new_bus), [''o1'']), None)"
    "\<not> dict_has (pending_store_orders (fst (fst (process_pending_orders (short_warehouse, new_bus))))) ''o1''"
    using T4 e4 by simp_all
  have m5: "process_order ''o1'' order_30 ((truckless_warehouse, new_bus), []) =
     (((truckless_warehouse, new_bus), []), None)"
    "dict_get (pending_store_orders (fst (fst (process_pending_orders (truckless_warehouse, new_bus))))) ''o1''
     = Some order_30"
    using T5 e5 by simp_all
  show ?thesis
    using m2 m3 m4 m5 all by (intro conjI)
qed


section \<open>The producer's schedule\<close>




















section \<open>Delivery and advance within one tick\<close>

subsection \<open>Statements that keep a mailbox free of foreign envelopes\<close>



lemma stable_done: "stable P done_ok"
  by (simp add: stable_def done_ok_def)










subsection \<open>The truck\<close>




lemma arrive_ids [simp]:
  "agent_id (arrive_at_pickup cm t) = agent_id t" "agent_id (arrive_at_delivery cm t) = agent_id t"
  "agent_id (move_towards_destination t) = agent_id t"
  by (simp_all add: arrive_at_pickup_def arrive_at_delivery_def move_towards_destination_def
      Let_def split: option.splits)









subsection \<open>The warehouse\<close>


















subsection \<open>The factory\<close>







lemma start_new_production_id [simp]: "agent_id (start_new_production f) = agent_id f"
  by (simp add: start_new_production_def Let_def split_def)


subsection \<open>The roles behind the scheduler\<close>

lemma own_mail_role:
  "own_mail aid (a, b) \<Longrightarrow> own_mail aid (with_role a r, b)"
  by (simp add: own_mail_def)


subsection \<open>The two loops, position by position\<close>











end
